theory Spec2Isabelle
  imports Complex_Main
begin

section \<open>The MPC controller node (ros/src/mpc/src/mpc\_node.cpp)\<close>

text \<open>
  The node keeps the latest path, pose and speed, and once per loop iteration projects
  the state through the actuation latency, finds the closest path point, extracts a
  window of path points, moves it to the car's frame, cuts it where the x spacing
  degenerates, fits a polynomial, derives the tracking errors and asks the solver for
  the actuators.

  Numbers of type \<^verbatim>\<open>double\<close> are read as real numbers: rounding, infinities and
  NaN are outside this model. The integer types are modelled with their widths where a
  conversion happens: \<^verbatim>\<open>int\<close> is 32 bits wide, \<^verbatim>\<open>size_t\<close> is 64 bits wide
  (the LP64 targets ROS is built for).
\<close>

type_synonym double = real

subsection \<open>Constants and collaborators declared outside this file\<close>

text \<open>
  \<^verbatim>\<open>mpc_node.h\<close> and \<^verbatim>\<open>MPC.h\<close> declare the constants the loop uses. They are
  parameters of the model. The counts are naturals: they are small non-negative
  integer constants in the program.
\<close>

record constants =
  NUM_STEPS_BACK :: nat
  NUM_STEPS_POLY :: nat
  STEP_POLY :: nat
  POLY_DEGREE :: nat
  X_DELTA_MIN_VALUE :: double
  CENTER_IN_DZIK :: double
  Lf :: double

text \<open>
  The polynomial fit and the solver are collaborators defined in \<^verbatim>\<open>MPC.cpp\<close>; the
  model takes them as functions from their arguments to their result.
\<close>

record externals =
  polyfit :: "double list \<Rightarrow> double list \<Rightarrow> nat \<Rightarrow> double list"
  Solve :: "double list \<Rightarrow> double list \<Rightarrow> double list"

text \<open>
  Modelled from the spec: the sum behind \<^verbatim>\<open>polyeval\<close>, which is defined in
  \<^verbatim>\<open>MPC.cpp\<close> and is not among the sources. The spec's polynomial has the ordered
  coefficient sequence \<open>c0, c1, ..., cD\<close> over the powers \<open>1, x, ..., x^D\<close>; this is
  the sum of the terms from the power \<open>i\<close> on.
\<close>

fun polyeval_from :: "nat \<Rightarrow> double list \<Rightarrow> double \<Rightarrow> double" where
  "polyeval_from i [] x = 0"
| "polyeval_from i (c # cs) x = c * x ^ i + polyeval_from (Suc i) cs x"

text \<open>
  Modelled from the spec: \<^verbatim>\<open>polyeval\<close> of \<^verbatim>\<open>MPC.cpp\<close>, not among the sources.
  The spec says that the cross-track error is the fitted polynomial at 0: the value of
  the polynomial with the given coefficients at \<open>x\<close>.
\<close>

definition polyeval :: "double list \<Rightarrow> double \<Rightarrow> double" where
  "polyeval coeffs x = polyeval_from 0 coeffs x"

subsection \<open>Integer conversions\<close>

text \<open>
  A \<^verbatim>\<open>size_t\<close> value stored in an \<^verbatim>\<open>int\<close> keeps its low 32 bits, read as two's
  complement; an \<^verbatim>\<open>int\<close> that meets a \<^verbatim>\<open>size_t\<close> in an expression is converted
  modulo \<open>2^64\<close>, and the arithmetic of \<^verbatim>\<open>size_t\<close> wraps modulo \<open>2^64\<close>.
\<close>

definition to_int :: "nat \<Rightarrow> int" where
  "to_int n = (int n + 2 ^ 31) mod 2 ^ 32 - 2 ^ 31"

definition to_size_t :: "int \<Rightarrow> nat" where
  "to_size_t z = nat (z mod 2 ^ 64)"

datatype error = Modulo_by_zero | Out_of_range | Length_error

subsection \<open>State of the node\<close>

record node =
  m_pts_x :: "double list"
  m_pts_y :: "double list"
  m_pts_OK :: bool
  m_pos_OK :: bool
  m_speed_OK :: bool
  m_psi_OK :: bool
  m_debug :: bool
  m_steer :: double
  m_throttle :: double
  m_speed :: double
  m_pos_x :: double
  m_pos_y :: double
  m_psi :: double
  m_latency :: double
  m_time :: double
  m_old_time :: double
  m_last_stop_msg_ts :: double

record Params =
  steps_ahead :: int
  dt :: double
  latency :: double
  cte_coeff :: double
  epsi_coeff :: double
  speed_coeff :: double
  acc_coeff :: double
  steer_coeff :: double
  consec_acc_coeff :: double
  consec_steer_coeff :: double
  debug :: bool

text \<open>
  The constructor assigns the fields below and leaves the others as they are in the
  fresh object; \<open>raw\<close> stands for that object, whose other fields hold whatever the
  memory held. \<open>now\<close> is the clock reading.
\<close>

definition MPCControllerNode :: "node \<Rightarrow> Params \<Rightarrow> double \<Rightarrow> node" where
  "MPCControllerNode raw params now =
     raw\<lparr>m_old_time := now, m_last_stop_msg_ts := now,
         m_pts_OK := False, m_pos_OK := False, m_speed_OK := False, m_psi_OK := False,
         m_debug := debug params, m_steer := 0, m_throttle := 0\<rparr>"

subsection \<open>Callbacks\<close>

definition centerline_cb :: "(double \<times> double) list \<Rightarrow> node \<Rightarrow> node" where
  "centerline_cb points s =
     s\<lparr>m_pts_x := map fst points, m_pts_y := map snd points, m_pts_OK := True\<rparr>"

definition odom_cb :: "double \<Rightarrow> node \<Rightarrow> node" where
  "odom_cb linear_x s = s\<lparr>m_speed := linear_x, m_speed_OK := True\<rparr>"

text \<open>The library's \<^verbatim>\<open>atan2\<close>, on real numbers.\<close>

definition atan2 :: "double \<Rightarrow> double \<Rightarrow> double" where
  "atan2 y x =
     (if 0 < x then arctan (y / x)
      else if x < 0 then (if 0 \<le> y then arctan (y / x) + pi else arctan (y / x) - pi)
      else if 0 < y then pi / 2
      else if y < 0 then - (pi / 2)
      else 0)"

record pose =
  position_x :: double
  position_y :: double
  orientation_x :: double
  orientation_y :: double
  orientation_z :: double
  orientation_w :: double

definition pf_pose_odom_cb :: "pose \<Rightarrow> node \<Rightarrow> node" where
  "pf_pose_odom_cb p s =
     (let siny_cosp = 2 * (orientation_w p * orientation_z p + orientation_x p * orientation_y p);
          cosy_cosp = 1 - 2 * (orientation_y p * orientation_y p + orientation_z p * orientation_z p)
      in s\<lparr>m_pos_x := position_x p, m_pos_y := position_y p, m_pos_OK := True,
           m_psi := atan2 siny_cosp cosy_cosp, m_psi_OK := True\<rparr>)"

subsection \<open>Nearest path point\<close>

text \<open>
  The scan of \<^verbatim>\<open>find_closest\<close>: \<open>i\<close> is the loop counter, the pair is
  \<open>(closest_idx, closest_dist)\<close>.
\<close>

function find_closest_loop ::
  "double list \<Rightarrow> double list \<Rightarrow> double \<Rightarrow> double \<Rightarrow> nat \<Rightarrow> int \<times> double \<Rightarrow> int \<times> double" where
  "find_closest_loop pts_x pts_y pos_x pos_y i (closest_idx, closest_dist) =
     (if i < length pts_x then
        (let diff_x = pts_x ! i - pos_x;
             diff_y = pts_y ! i - pos_y;
             dist = diff_x * diff_x + diff_y * diff_y
         in if dist < closest_dist
            then find_closest_loop pts_x pts_y pos_x pos_y (i + 1) (to_int i, dist)
            else find_closest_loop pts_x pts_y pos_x pos_y (i + 1) (closest_idx, closest_dist))
      else (closest_idx, closest_dist))"
  by pat_completeness auto
termination
  by (relation "measure (\<lambda>(pts_x, pts_y, pos_x, pos_y, i, acc). length pts_x - i)") auto

definition find_closest :: "double list \<Rightarrow> double list \<Rightarrow> double \<Rightarrow> double \<Rightarrow> int" where
  "find_closest pts_x pts_y pos_x pos_y =
     fst (find_closest_loop pts_x pts_y pos_x pos_y 0 (- 1, 999999999))"

subsection \<open>Window of path points\<close>

text \<open>
  The index expression of the extraction loop,
  \<^verbatim>\<open>int idx = (closest_idx + i*STEP_POLY) % m_pts_x.size()\<close>: the counter \<open>i\<close> and the
  size are \<^verbatim>\<open>size_t\<close>, so \<open>closest_idx\<close> is converted to \<^verbatim>\<open>size_t\<close>, the sum
  wraps modulo \<open>2^64\<close> and the remainder is the unsigned one; \<open>n\<close> is the size.
\<close>

definition window_index :: "constants \<Rightarrow> nat \<Rightarrow> int \<Rightarrow> nat \<Rightarrow> int" where
  "window_index K n closest_idx i =
     to_int (((to_size_t closest_idx + i * STEP_POLY K) mod 2 ^ 64) mod n)"

text \<open>
  The extraction loop. The remainder by an empty path's size stops the program; an
  index is converted to \<^verbatim>\<open>size_t\<close> again when the vector is read.
\<close>

function extract_loop ::
  "constants \<Rightarrow> double list \<Rightarrow> double list \<Rightarrow> int \<Rightarrow> nat \<Rightarrow> double list \<times> double list
     \<Rightarrow> error + double list \<times> double list" where
  "extract_loop K pts_x pts_y closest_idx i (closest_pts_x, closest_pts_y) =
     (if i < NUM_STEPS_POLY K then
        (if length pts_x = 0 then Inl Modulo_by_zero
         else
           (let idx = window_index K (length pts_x) closest_idx i
            in if to_size_t idx < length pts_x \<and> to_size_t idx < length pts_y
               then extract_loop K pts_x pts_y closest_idx (i + 1)
                      (closest_pts_x @ [pts_x ! to_size_t idx],
                       closest_pts_y @ [pts_y ! to_size_t idx])
               else Inl Out_of_range))
      else Inr (closest_pts_x, closest_pts_y))"
  by pat_completeness auto
termination
  by (relation "measure (\<lambda>(K, pts_x, pts_y, closest_idx, i, acc). NUM_STEPS_POLY K - i)") auto

text \<open>
  Lines 183 to 197 of the loop: the closest index, shifted back by
  \<open>NUM_STEPS_BACK\<close>, and the window read from there.
\<close>

definition closest_window ::
  "constants \<Rightarrow> double list \<Rightarrow> double list \<Rightarrow> double \<Rightarrow> double
     \<Rightarrow> error + double list \<times> double list" where
  "closest_window K pts_x pts_y pos_x_lat pos_y_lat =
     (let closest_idx = find_closest pts_x pts_y pos_x_lat pos_y_lat;
          closest_idx = closest_idx - int (NUM_STEPS_BACK K)
      in extract_loop K pts_x pts_y closest_idx 0 ([], []))"

subsection \<open>Car frame and the x spacing check\<close>

text \<open>
  Lines 208 to 240: every window point is moved to the car's frame; past the first
  \<open>POLY_DEGREE + 1\<close> points the loop breaks at the first point whose x is less than
  \<open>X_DELTA_MIN_VALUE\<close> ahead of the last stored x. The result is the two vectors and
  the warning, if the loop broke.
\<close>

definition x_rot :: "double \<Rightarrow> double \<Rightarrow> double \<Rightarrow> double \<Rightarrow> double \<Rightarrow> double \<Rightarrow> double" where
  "x_rot gx gy pos_x_lat pos_y_lat sin_psi_lat cos_psi_lat =
     (gx - pos_x_lat) * cos_psi_lat + (gy - pos_y_lat) * sin_psi_lat"

definition y_rot :: "double \<Rightarrow> double \<Rightarrow> double \<Rightarrow> double \<Rightarrow> double \<Rightarrow> double \<Rightarrow> double" where
  "y_rot gx gy pos_x_lat pos_y_lat sin_psi_lat cos_psi_lat =
     - (gx - pos_x_lat) * sin_psi_lat + (gy - pos_y_lat) * cos_psi_lat"

datatype warning =
    X_delta_too_low nat
  | Coeffs double double double double
  | Cte_epsi_psi double double double
  | Steer_throttle double double
  | Dt double double
  | No_optimization bool bool bool bool

function guard_loop ::
  "constants \<Rightarrow> double list \<Rightarrow> double list \<Rightarrow> double \<Rightarrow> double \<Rightarrow> double \<Rightarrow> double \<Rightarrow> nat
     \<Rightarrow> double list \<times> double list \<Rightarrow> double list \<times> double list \<times> warning list" where
  "guard_loop K closest_pts_x closest_pts_y pos_x_lat pos_y_lat sin_psi_lat cos_psi_lat i
       (xvals_vec, yvals_vec) =
     (if i < NUM_STEPS_POLY K then
        (let xr = x_rot (closest_pts_x ! i) (closest_pts_y ! i)
                    pos_x_lat pos_y_lat sin_psi_lat cos_psi_lat;
             yr = y_rot (closest_pts_x ! i) (closest_pts_y ! i)
                    pos_x_lat pos_y_lat sin_psi_lat cos_psi_lat
         in if i > POLY_DEGREE K \<and> xr - xvals_vec ! (i - 1) < X_DELTA_MIN_VALUE K
            then (xvals_vec, yvals_vec, [X_delta_too_low i])
            else guard_loop K closest_pts_x closest_pts_y pos_x_lat pos_y_lat
                   sin_psi_lat cos_psi_lat (i + 1) (xvals_vec @ [xr], yvals_vec @ [yr]))
      else (xvals_vec, yvals_vec, []))"
  by pat_completeness auto
termination
  by (relation "measure (\<lambda>(K, cx, cy, px, py, sn, cs, i, acc). NUM_STEPS_POLY K - i)") auto

definition stability_guard ::
  "constants \<Rightarrow> double list \<Rightarrow> double list \<Rightarrow> double \<Rightarrow> double \<Rightarrow> double \<Rightarrow> double
     \<Rightarrow> double list \<times> double list \<times> warning list" where
  "stability_guard K closest_pts_x closest_pts_y pos_x_lat pos_y_lat sin_psi_lat cos_psi_lat =
     guard_loop K closest_pts_x closest_pts_y pos_x_lat pos_y_lat sin_psi_lat cos_psi_lat
       0 ([], [])"

subsection \<open>Debug markers\<close>

text \<open>
  A marker is modelled by its colour and its points; the other fields are constants
  and the time stamp. \<^verbatim>\<open>get_marker\<close> reserves \<open>(vars.size() - 2) / 2\<close> points, in
  \<^verbatim>\<open>size_t\<close>: with fewer than two values the difference wraps and the reservation
  is refused with a length error. The loop reads \<open>vars[i+1]\<close> for every even
  \<open>i < vars.size()\<close>.
\<close>

record marker =
  color_r :: double
  color_g :: double
  color_b :: double
  points :: "(double \<times> double) list"

function get_marker_loop ::
  "double list \<Rightarrow> double \<Rightarrow> double \<Rightarrow> double \<Rightarrow> double \<Rightarrow> nat \<Rightarrow> (double \<times> double) list
     \<Rightarrow> error + (double \<times> double) list" where
  "get_marker_loop vars pos_x_lat pos_y_lat sin_psi_lat cos_psi_lat i pts =
     (if i < length vars then
        (if i + 1 < length vars then
           (let x = vars ! i;
                y = vars ! (i + 1);
                xr = x * cos_psi_lat - y * sin_psi_lat;
                yr = x * sin_psi_lat + y * cos_psi_lat
            in get_marker_loop vars pos_x_lat pos_y_lat sin_psi_lat cos_psi_lat (i + 2)
                 (pts @ [(xr + pos_x_lat, yr + pos_y_lat)]))
         else Inl Out_of_range)
      else Inr pts)"
  by pat_completeness auto
termination
  by (relation "measure (\<lambda>(vars, px, py, sn, cs, i, pts). length vars - i)") auto

definition get_marker ::
  "double list \<Rightarrow> double \<Rightarrow> double \<Rightarrow> double \<Rightarrow> double \<Rightarrow> double \<Rightarrow> double \<Rightarrow> double
     \<Rightarrow> error + marker" where
  "get_marker vars pos_x_lat pos_y_lat sin_psi_lat cos_psi_lat red green blue =
     (if length vars < 2 then Inl Length_error
      else
        (case get_marker_loop vars pos_x_lat pos_y_lat sin_psi_lat cos_psi_lat 2 [] of
           Inl e \<Rightarrow> Inl e
         | Inr pts \<Rightarrow>
             Inr \<lparr>color_r = red, color_g = green, color_b = blue, points = pts\<rparr>))"

lemma poly_samples_decreases:
  fixes x :: real
  assumes "x < 21 / 10"
  shows "nat \<lceil>(21 / 10 - (x + 2 / 10)) * 5\<rceil> < nat \<lceil>(21 / 10 - x) * 5\<rceil>"
proof -
  define y where "y = (21 / 10 - x) * 5"
  have e: "(21 / 10 - (x + 2 / 10)) * 5 = y - 1"
    unfolding y_def by (simp add: algebra_simps)
  have "0 < y" unfolding y_def using assms by simp
  hence pos: "0 < \<lceil>y\<rceil>" by simp
  have "\<lceil>y - 1\<rceil> = \<lceil>y\<rceil> - 1" by (rule ceiling_diff_one)
  hence "nat \<lceil>y - 1\<rceil> < nat \<lceil>y\<rceil>" using pos by linarith
  thus ?thesis unfolding e y_def .
qed

text \<open>
  The samples of the fitted polynomial: \<^verbatim>\<open>for (double x=0; x < 2.1; x+=0.2)\<close>.
\<close>

function poly_samples :: "double list \<Rightarrow> double \<Rightarrow> double list \<Rightarrow> double list" where
  "poly_samples coeffs x vars2 =
     (if x < 21 / 10 then poly_samples coeffs (x + 2 / 10) (vars2 @ [x, polyeval coeffs x])
      else vars2)"
  by pat_completeness auto
termination
proof (relation "measure (\<lambda>(coeffs, x, vars2). nat \<lceil>(21 / 10 - x) * 5\<rceil>)")
  show "wf (measure (\<lambda>(coeffs, x, vars2). nat \<lceil>(21 / 10 - x) * 5\<rceil>))" by simp
next
  fix coeffs :: "double list" and x :: double and vars2 :: "double list"
  assume "x < 21 / 10"
  thus "((coeffs, x + 2 / 10, vars2 @ [x, polyeval coeffs x]), (coeffs, x, vars2))
          \<in> measure (\<lambda>(coeffs, x, vars2). nat \<lceil>(21 / 10 - x) * 5\<rceil>)"
    by (simp only: in_measure prod.case poly_samples_decreases)
qed

text \<open>What one loop iteration does, in order.\<close>

datatype event =
    Warn warning
  | Call_polyfit "double list" "double list" nat
  | Call_Solve "double list" "double list"
  | Publish_angle double
  | Publish_closest marker
  | Publish_next_pos marker
  | Publish_poly marker

text \<open>
  Interleaves two vectors, as the loop filling \<open>closest_vars\<close> does.
\<close>

definition closest_vars :: "double list \<Rightarrow> double list \<Rightarrow> nat \<Rightarrow> double list" where
  "closest_vars xvals_vec yvals_vec num_steps_OK =
     concat (map (\<lambda>i. [xvals_vec ! i, yvals_vec ! i]) [0..<num_steps_OK])"

definition debug_markers ::
  "double list \<Rightarrow> double list \<Rightarrow> double list \<Rightarrow> double list \<Rightarrow> double \<Rightarrow> double \<Rightarrow> double
     \<Rightarrow> double \<Rightarrow> error + event list" where
  "debug_markers xvals_vec yvals_vec vars coeffs pos_x_lat pos_y_lat sin_psi_lat cos_psi_lat =
     (case get_marker (closest_vars xvals_vec yvals_vec (length xvals_vec))
             pos_x_lat pos_y_lat sin_psi_lat cos_psi_lat 1 1 1 of
        Inl e \<Rightarrow> Inl e
      | Inr closest_marker \<Rightarrow>
          (case get_marker vars pos_x_lat pos_y_lat sin_psi_lat cos_psi_lat 0 0 1 of
             Inl e \<Rightarrow> Inl e
           | Inr next_pos_marker \<Rightarrow>
               (case get_marker (poly_samples coeffs 0 [0, 0])
                       pos_x_lat pos_y_lat sin_psi_lat cos_psi_lat (7 / 10) (2 / 10) (1 / 10) of
                  Inl e \<Rightarrow> Inl e
                | Inr poly_marker \<Rightarrow>
                    Inr [Publish_closest closest_marker, Publish_next_pos next_pos_marker,
                         Publish_poly poly_marker])))"

subsection \<open>The loop\<close>

text \<open>Lines 178 to 181: the state after the latency.\<close>

definition v_lat :: "node \<Rightarrow> double" where
  "v_lat s = m_speed s + m_latency s * m_throttle s"

definition psi_lat :: "constants \<Rightarrow> node \<Rightarrow> double" where
  "psi_lat K s = m_psi s - m_latency s * (v_lat s * m_steer s / Lf K)"

definition pos_x_lat :: "constants \<Rightarrow> node \<Rightarrow> double" where
  "pos_x_lat K s = m_pos_x s + m_latency s * (v_lat s * cos (psi_lat K s))"

definition pos_y_lat :: "constants \<Rightarrow> node \<Rightarrow> double" where
  "pos_y_lat K s = m_pos_y s + m_latency s * (v_lat s * sin (psi_lat K s))"

text \<open>Lines 254 to 258: the errors read off the coefficients.\<close>

definition cte :: "double list \<Rightarrow> double" where
  "cte coeffs = polyeval coeffs 0"

definition epsi :: "double list \<Rightarrow> double" where
  "epsi coeffs = - arctan (coeffs ! 1)"

text \<open>
  The branch taken when all four flags are set. \<open>t_end\<close> is the clock reading at the
  end of the branch. Reading \<open>coeffs[3]\<close> for the warning and \<open>vars[1]\<close> needs that
  many elements.
\<close>

definition ready_cycle ::
  "constants \<Rightarrow> externals \<Rightarrow> double \<Rightarrow> node \<Rightarrow> error + node \<times> event list" where
  "ready_cycle K E t_end s =
     (case closest_window K (m_pts_x s) (m_pts_y s) (pos_x_lat K s) (pos_y_lat K s) of
        Inl e \<Rightarrow> Inl e
      | Inr (closest_pts_x, closest_pts_y) \<Rightarrow>
          (let sin_psi_lat = sin (psi_lat K s);
               cos_psi_lat = cos (psi_lat K s);
               (xvals_vec, yvals_vec, broke) =
                  stability_guard K closest_pts_x closest_pts_y (pos_x_lat K s) (pos_y_lat K s)
                    sin_psi_lat cos_psi_lat;
               coeffs = polyfit E xvals_vec yvals_vec (POLY_DEGREE K)
           in if length coeffs < 4 then Inl Out_of_range
              else
                (let state = [0, 0, 0, v_lat s, cte coeffs, epsi coeffs];
                     vars = Solve E state coeffs
                 in if length vars < 2 then Inl Out_of_range
                    else
                      (let steering_angle_in_radians = vars ! 0;
                           acceleration_in_meters_by_sec2 = vars ! 1;
                           s' = s\<lparr>m_steer := CENTER_IN_DZIK K - steering_angle_in_radians\<rparr>
                       in case (if m_debug s'
                                then debug_markers xvals_vec yvals_vec vars coeffs
                                       (pos_x_lat K s) (pos_y_lat K s) sin_psi_lat cos_psi_lat
                                else Inr []) of
                            Inl e \<Rightarrow> Inl e
                          | Inr published \<Rightarrow>
                              Inr (s',
                                map Warn broke @
                                [Call_polyfit xvals_vec yvals_vec (POLY_DEGREE K),
                                 Warn (Coeffs (coeffs ! 0) (coeffs ! 1) (coeffs ! 2) (coeffs ! 3)),
                                 Warn (Cte_epsi_psi (cte coeffs) (epsi coeffs) (m_psi s)),
                                 Call_Solve state coeffs,
                                 Warn (Steer_throttle steering_angle_in_radians
                                         acceleration_in_meters_by_sec2),
                                 Publish_angle (m_steer s')] @
                                published @
                                [Warn (Dt (m_time s - m_old_time s) (t_end - m_time s))])))))"

text \<open>
  One iteration of the \<^verbatim>\<open>while\<close> loop up to \<^verbatim>\<open>ros::spinOnce()\<close>; \<open>t_start\<close> is
  the clock reading at its start.
\<close>

definition loop_iteration ::
  "constants \<Rightarrow> externals \<Rightarrow> double \<Rightarrow> double \<Rightarrow> node \<Rightarrow> error + node \<times> event list" where
  "loop_iteration K E t_start t_end s0 =
     (let s = s0\<lparr>m_time := t_start\<rparr>
      in if m_pts_OK s \<and> m_speed_OK s \<and> m_pos_OK s \<and> m_psi_OK s then
           (case ready_cycle K E t_end s of
              Inl e \<Rightarrow> Inl e
            | Inr (s', evs) \<Rightarrow> Inr (s'\<lparr>m_old_time := m_time s'\<rparr>, evs))
         else
           Inr (s\<lparr>m_old_time := m_time s\<rparr>,
                [Warn (No_optimization (m_pts_OK s) (m_speed_OK s) (m_pos_OK s) (m_psi_OK s))]))"

text \<open>
  \<^verbatim>\<open>ros::spinOnce()\<close> runs the callbacks of the messages that wait, in their order.
\<close>

datatype message =
    Centerline "(double \<times> double) list"
  | Odom double
  | Pf_pose_odom pose

fun callback :: "message \<Rightarrow> node \<Rightarrow> node" where
  "callback (Centerline pts) s = centerline_cb pts s"
| "callback (Odom linear_x) s = odom_cb linear_x s"
| "callback (Pf_pose_odom p) s = pf_pose_odom_cb p s"

fun spinOnce :: "message list \<Rightarrow> node \<Rightarrow> node" where
  "spinOnce [] s = s"
| "spinOnce (m # ms) s = spinOnce ms (callback m s)"

text \<open>
  The loop runs while the node handle is fine; the list holds, for each iteration that
  happens, the two clock readings and the messages waiting at its end.
\<close>

record iteration =
  t_start :: double
  t_end :: double
  pending :: "message list"

fun loop :: "constants \<Rightarrow> externals \<Rightarrow> iteration list \<Rightarrow> node \<Rightarrow> error + node \<times> event list" where
  "loop K E [] s = Inr (s, [])"
| "loop K E (it # its) s =
     (case loop_iteration K E (t_start it) (t_end it) s of
        Inl e \<Rightarrow> Inl e
      | Inr (s', evs) \<Rightarrow>
          (case loop K E its (spinOnce (pending it) s') of
             Inl e \<Rightarrow> Inl e
           | Inr (s'', evs') \<Rightarrow> Inr (s'', evs @ evs')))"

subsection \<open>Start of the process\<close>

text \<open>
  The C library's \<^verbatim>\<open>atoi\<close> and \<^verbatim>\<open>atof\<close> are parameters of the model: functions
  from the text of an argument to the number the library makes of it. They give a number
  for every text and report no error; nothing is assumed about the number.
\<close>

datatype diagnostic =
    Bad_debug_argument string
  | Too_many_arguments
  | Too_few_arguments

datatype startup =
    Exit int diagnostic
  | Enter_loop Params bool

text \<open>
  \<^verbatim>\<open>main\<close> up to the construction of the node: \<open>argv\<close> is the argument vector
  that \<^verbatim>\<open>ros::init\<close> leaves, program name first. \<open>Enter_loop\<close> carries the
  parameters and whether the warning about a latency above 1 was printed.
\<close>

definition numeric_params ::
  "(string \<Rightarrow> int) \<Rightarrow> (string \<Rightarrow> double) \<Rightarrow> string list \<Rightarrow> bool \<Rightarrow> Params" where
  "numeric_params atoi atof argv dbg =
     \<lparr>steps_ahead = atoi (argv ! 1),
      dt = atof (argv ! 2),
      latency = atof (argv ! 3),
      cte_coeff = atof (argv ! 4),
      epsi_coeff = atof (argv ! 5),
      speed_coeff = atof (argv ! 6),
      acc_coeff = atof (argv ! 7),
      steer_coeff = atof (argv ! 8),
      consec_acc_coeff = atof (argv ! 9),
      consec_steer_coeff = atof (argv ! 10),
      debug = dbg\<rparr>"

definition main_startup ::
  "(string \<Rightarrow> int) \<Rightarrow> (string \<Rightarrow> double) \<Rightarrow> string list \<Rightarrow> startup" where
  "main_startup atoi atof argv =
     (let num_expected_args = 12 in
      if length argv = num_expected_args then
        (let debug_msg = argv ! 11 in
         if debug_msg = ''true''
         then Enter_loop (numeric_params atoi atof argv True)
                (1 < latency (numeric_params atoi atof argv True))
         else if debug_msg = ''false''
         then Enter_loop (numeric_params atoi atof argv False)
                (1 < latency (numeric_params atoi atof argv False))
         else Exit 1 (Bad_debug_argument (argv ! 11)))
      else if length argv > num_expected_args then Exit 1 Too_many_arguments
      else Exit 1 Too_few_arguments)"

text \<open>
  The whole of \<^verbatim>\<open>main\<close>: the exit status, the diagnostic of a refused start and
  what the loop did. The solver belongs to the controller built from the parameters.
\<close>

definition main ::
  "constants \<Rightarrow> (Params \<Rightarrow> externals) \<Rightarrow> (string \<Rightarrow> int) \<Rightarrow> (string \<Rightarrow> double) \<Rightarrow> node
     \<Rightarrow> double \<Rightarrow> iteration list \<Rightarrow> string list
     \<Rightarrow> error + int \<times> diagnostic list \<times> event list" where
  "main K controller atoi atof raw now its argv =
     (case main_startup atoi atof argv of
        Exit status d \<Rightarrow> Inr (status, [d], [])
      | Enter_loop params warned \<Rightarrow>
          (case loop K (controller params) its (MPCControllerNode raw params now) of
             Inl e \<Rightarrow> Inl e
           | Inr (s, evs) \<Rightarrow> Inr (0, [], evs)))"

declare find_closest_loop.simps [simp del]
declare extract_loop.simps [simp del]
declare guard_loop.simps [simp del]
declare get_marker_loop.simps [simp del]
declare poly_samples.simps [simp del]

section \<open>Properties\<close>

subsection \<open>Notions used in the statements\<close>

text \<open>The car-frame coordinates of window point \<open>i\<close>, as the loop computes them.\<close>

definition x_local ::
  "double list \<Rightarrow> double list \<Rightarrow> double \<Rightarrow> double \<Rightarrow> double \<Rightarrow> double \<Rightarrow> nat \<Rightarrow> double" where
  "x_local cx cy px py sn cs i = x_rot (cx ! i) (cy ! i) px py sn cs"

definition y_local ::
  "double list \<Rightarrow> double list \<Rightarrow> double \<Rightarrow> double \<Rightarrow> double \<Rightarrow> double \<Rightarrow> nat \<Rightarrow> double" where
  "y_local cx cy px py sn cs i = y_rot (cx ! i) (cy ! i) px py sn cs"

text \<open>The squared distance of path point \<open>i\<close> to the query point, as the scan computes it.\<close>

definition dist2 :: "double list \<Rightarrow> double list \<Rightarrow> double \<Rightarrow> double \<Rightarrow> nat \<Rightarrow> double" where
  "dist2 pts_x pts_y pos_x pos_y i =
     (pts_x ! i - pos_x) * (pts_x ! i - pos_x) + (pts_y ! i - pos_y) * (pts_y ! i - pos_y)"

text \<open>
  What holds of \<open>(closest_idx, closest_dist)\<close> after the scan has seen the points
  before \<open>i\<close>: either no point was closer than the start value, or the pair is the
  first of the nearest points seen and its distance.
\<close>

definition scan_inv ::
  "double list \<Rightarrow> double list \<Rightarrow> double \<Rightarrow> double \<Rightarrow> nat \<Rightarrow> int \<times> double \<Rightarrow> bool" where
  "scan_inv pts_x pts_y pos_x pos_y i acc =
     (case acc of (closest_idx, closest_dist) \<Rightarrow>
        (closest_idx = - 1 \<and> closest_dist = 999999999
           \<and> (\<forall>j<i. 999999999 \<le> dist2 pts_x pts_y pos_x pos_y j))
        \<or> (0 \<le> closest_idx \<and> nat closest_idx < i
             \<and> closest_dist = dist2 pts_x pts_y pos_x pos_y (nat closest_idx)
             \<and> closest_dist < 999999999
             \<and> (\<forall>j<i. closest_dist \<le> dist2 pts_x pts_y pos_x pos_y j)
             \<and> (\<forall>j<nat closest_idx. closest_dist < dist2 pts_x pts_y pos_x pos_y j)))"

text \<open>A configuration for the concrete runs below.\<close>

definition K_example :: constants where
  "K_example =
     \<lparr>NUM_STEPS_BACK = 1, NUM_STEPS_POLY = 6, STEP_POLY = 1, POLY_DEGREE = 3,
      X_DELTA_MIN_VALUE = 1 / 100, CENTER_IN_DZIK = 1 / 2, Lf = 1 / 4\<rparr>"

subsection \<open>Nearest path point\<close>

lemma to_int_small: "n < 2 ^ 31 \<Longrightarrow> to_int n = int n"
  by (simp add: to_int_def)

lemma scan_inv_step:
  assumes "scan_inv pts_x pts_y pos_x pos_y i (ci, cd)" and "i < 2 ^ 31"
  shows "scan_inv pts_x pts_y pos_x pos_y (i + 1)
           (if dist2 pts_x pts_y pos_x pos_y i < cd then (to_int i, dist2 pts_x pts_y pos_x pos_y i)
            else (ci, cd))"
proof (cases "dist2 pts_x pts_y pos_x pos_y i < cd")
  case True
  have lt: "dist2 pts_x pts_y pos_x pos_y i < 999999999"
    using assms(1) True by (auto simp: scan_inv_def)
  have below: "\<forall>j<i. dist2 pts_x pts_y pos_x pos_y i < dist2 pts_x pts_y pos_x pos_y j"
    using assms(1) True by (fastforce simp: scan_inv_def)
  have "\<forall>j<i + 1. dist2 pts_x pts_y pos_x pos_y i \<le> dist2 pts_x pts_y pos_x pos_y j"
  proof (intro allI impI)
    fix j assume "j < i + 1"
    hence "j < i \<or> j = i" by auto
    thus "dist2 pts_x pts_y pos_x pos_y i \<le> dist2 pts_x pts_y pos_x pos_y j"
      using below by auto
  qed
  with True lt below show ?thesis
    by (simp add: scan_inv_def to_int_small[OF assms(2)])
next
  case False
  hence ge: "cd \<le> dist2 pts_x pts_y pos_x pos_y i" by simp
  have all: "(\<forall>j<i. P j) \<Longrightarrow> P i \<Longrightarrow> (\<forall>j<i + 1. P j)" for P
    by (auto simp: less_Suc_eq)
  from assms(1) show ?thesis
    unfolding scan_inv_def prod.case if_not_P[OF False]
  proof (elim disjE conjE)
    assume a: "ci = - 1" "cd = 999999999" "\<forall>j<i. 999999999 \<le> dist2 pts_x pts_y pos_x pos_y j"
    from all[OF a(3)] ge a(2) have "\<forall>j<i + 1. 999999999 \<le> dist2 pts_x pts_y pos_x pos_y j" by simp
    with a show "(ci = - 1 \<and> cd = 999999999 \<and> (\<forall>j<i + 1. 999999999 \<le> dist2 pts_x pts_y pos_x pos_y j))
        \<or> (0 \<le> ci \<and> nat ci < i + 1 \<and> cd = dist2 pts_x pts_y pos_x pos_y (nat ci) \<and> cd < 999999999
             \<and> (\<forall>j<i + 1. cd \<le> dist2 pts_x pts_y pos_x pos_y j)
             \<and> (\<forall>j<nat ci. cd < dist2 pts_x pts_y pos_x pos_y j))"
      by blast
  next
    assume a: "0 \<le> ci" "nat ci < i" "cd = dist2 pts_x pts_y pos_x pos_y (nat ci)" "cd < 999999999"
      "\<forall>j<i. cd \<le> dist2 pts_x pts_y pos_x pos_y j" "\<forall>j<nat ci. cd < dist2 pts_x pts_y pos_x pos_y j"
    from all[OF a(5)] ge have "\<forall>j<i + 1. cd \<le> dist2 pts_x pts_y pos_x pos_y j" by simp
    moreover from a(2) have "nat ci < i + 1" by simp
    ultimately show "(ci = - 1 \<and> cd = 999999999 \<and> (\<forall>j<i + 1. 999999999 \<le> dist2 pts_x pts_y pos_x pos_y j))
        \<or> (0 \<le> ci \<and> nat ci < i + 1 \<and> cd = dist2 pts_x pts_y pos_x pos_y (nat ci) \<and> cd < 999999999
             \<and> (\<forall>j<i + 1. cd \<le> dist2 pts_x pts_y pos_x pos_y j)
             \<and> (\<forall>j<nat ci. cd < dist2 pts_x pts_y pos_x pos_y j))"
      using a by blast
  qed
qed

lemma find_closest_loop_inv:
  assumes "scan_inv pts_x pts_y pos_x pos_y i acc" and "i \<le> length pts_x"
    and "length pts_x < 2 ^ 31"
  shows "scan_inv pts_x pts_y pos_x pos_y (length pts_x)
           (find_closest_loop pts_x pts_y pos_x pos_y i acc)"
  using assms
proof (induction pts_x pts_y pos_x pos_y i acc rule: find_closest_loop.induct)
  case (1 pts_x pts_y pos_x pos_y i closest_idx closest_dist)
  show ?case
  proof (cases "i < length pts_x")
    case False
    with "1.prems" show ?thesis by (simp add: find_closest_loop.simps)
  next
    case True
    let ?d = "dist2 pts_x pts_y pos_x pos_y i"
    have i31: "i < 2 ^ 31" using True "1.prems"(3) by simp
    have step: "scan_inv pts_x pts_y pos_x pos_y (i + 1)
                  (if ?d < closest_dist then (to_int i, ?d) else (closest_idx, closest_dist))"
      by (rule scan_inv_step[OF "1.prems"(1) i31])
    have le: "i + 1 \<le> length pts_x" using True by simp
    have d: "?d = (pts_x ! i - pos_x) * (pts_x ! i - pos_x) + (pts_y ! i - pos_y) * (pts_y ! i - pos_y)"
      by (simp add: dist2_def)
    show ?thesis
    proof (cases "?d < closest_dist")
      case lt: True
      from step lt have s: "scan_inv pts_x pts_y pos_x pos_y (i + 1) (to_int i, ?d)" by simp
      have "find_closest_loop pts_x pts_y pos_x pos_y i (closest_idx, closest_dist)
              = find_closest_loop pts_x pts_y pos_x pos_y (i + 1) (to_int i, ?d)"
        using True lt by (subst find_closest_loop.simps) (simp add: Let_def d)
      thus ?thesis
        using "1.IH"(1)[OF True refl refl] s le "1.prems"(3) lt d by (simp add: dist2_def)
    next
      case ge: False
      from step ge have s: "scan_inv pts_x pts_y pos_x pos_y (i + 1) (closest_idx, closest_dist)" by simp
      have "find_closest_loop pts_x pts_y pos_x pos_y i (closest_idx, closest_dist)
              = find_closest_loop pts_x pts_y pos_x pos_y (i + 1) (closest_idx, closest_dist)"
        using True ge by (subst find_closest_loop.simps) (simp add: Let_def d)
      thus ?thesis
        using "1.IH"(2)[OF True refl refl] s le "1.prems"(3) ge d by (simp add: dist2_def)
    qed
  qed
qed


text \<open>
  What \<^verbatim>\<open>find_closest\<close> returns on a path of fewer than \<open>2^31\<close> points: -1 when
  no point is closer than the start value, and else the lowest index of a nearest point.
\<close>

lemma find_closest_spec:
  assumes "length pts_x < 2 ^ 31"
  shows "(find_closest pts_x pts_y pos_x pos_y = - 1
          \<and> (\<forall>j<length pts_x. 999999999 \<le> dist2 pts_x pts_y pos_x pos_y j))
       \<or> (0 \<le> find_closest pts_x pts_y pos_x pos_y
           \<and> nat (find_closest pts_x pts_y pos_x pos_y) < length pts_x
           \<and> dist2 pts_x pts_y pos_x pos_y (nat (find_closest pts_x pts_y pos_x pos_y)) < 999999999
           \<and> (\<forall>j<length pts_x. dist2 pts_x pts_y pos_x pos_y (nat (find_closest pts_x pts_y pos_x pos_y))
                                  \<le> dist2 pts_x pts_y pos_x pos_y j)
           \<and> (\<forall>j<nat (find_closest pts_x pts_y pos_x pos_y).
                 dist2 pts_x pts_y pos_x pos_y (nat (find_closest pts_x pts_y pos_x pos_y))
                   < dist2 pts_x pts_y pos_x pos_y j))"
proof -
  obtain r d where r: "find_closest_loop pts_x pts_y pos_x pos_y 0 (- 1, 999999999) = (r, d)"
    by (cases "find_closest_loop pts_x pts_y pos_x pos_y 0 (- 1, 999999999)") auto
  have "scan_inv pts_x pts_y pos_x pos_y 0 (- 1, 999999999)" by (simp add: scan_inv_def)
  from find_closest_loop_inv[OF this _ assms]
  have "scan_inv pts_x pts_y pos_x pos_y (length pts_x) (r, d)" by (simp add: r)
  moreover have "find_closest pts_x pts_y pos_x pos_y = r" by (simp add: find_closest_def r)
  ultimately show ?thesis by (auto simp: scan_inv_def)
qed

text \<open>
  C1. The spec states that for every non-empty path and query point \<^verbatim>\<open>find_closest\<close>
  returns the lowest index of a point at the least squared distance. The scan starts from the
  distance 999999999 and the index -1, so a path whose points all lie at a squared
  distance of 999999999 or more gives -1, which is no index of the path: here the path
  (40000, 0), (50000, 0) seen from the origin.
\<close>

theorem find_closest_far_path: "find_closest [40000, 50000] [0, 0] 0 0 = - 1"
  by (simp add: find_closest_def find_closest_loop.simps)

subsection \<open>Window of path points\<close>

text \<open>
  With a shifted index that is not negative the index expression is the mathematical
  remainder by the path length; the window holds the path points at the indices the
  expression gives, and has \<open>NUM_STEPS_POLY\<close> points.
\<close>

lemma window_index_nonneg:
  assumes "0 \<le> c" and "c + int (i * STEP_POLY K) < 2 ^ 64" and "0 < n" and "n \<le> 2 ^ 31"
  shows "window_index K n c i = (c + int i * int (STEP_POLY K)) mod int n"
proof -
  have c64: "c < 2 ^ 64" using assms(1,2) by linarith
  have sz: "to_size_t c = nat c" using assms(1) c64 by (simp add: to_size_t_def)
  have "int (nat c + i * STEP_POLY K) = c + int (i * STEP_POLY K)" using assms(1) by simp
  hence "int (nat c + i * STEP_POLY K) < 2 ^ 64" using assms(2) by simp
  hence "nat c + i * STEP_POLY K < 2 ^ 64" by (metis of_nat_less_numeral_power_cancel_iff)
  hence m: "(nat c + i * STEP_POLY K) mod 2 ^ 64 = nat c + i * STEP_POLY K" by simp
  have "(nat c + i * STEP_POLY K) mod n < n" using assms(3) by simp
  hence "(nat c + i * STEP_POLY K) mod n < 2 ^ 31" using assms(4) by linarith
  hence "to_int ((nat c + i * STEP_POLY K) mod n) = int ((nat c + i * STEP_POLY K) mod n)"
    by (rule to_int_small)
  also have "\<dots> = (c + int i * int (STEP_POLY K)) mod int n"
    using assms(1) by (simp add: zmod_int)
  finally show ?thesis unfolding window_index_def sz m .
qed

lemma extract_loop_points:
  assumes "extract_loop K pts_x pts_y c i (ax, ay) = Inr (cx, cy)"
    and "i \<le> NUM_STEPS_POLY K"
  shows "cx = ax @ map (\<lambda>k. pts_x ! to_size_t (window_index K (length pts_x) c k))
                      [i..<NUM_STEPS_POLY K]
     \<and> cy = ay @ map (\<lambda>k. pts_y ! to_size_t (window_index K (length pts_x) c k))
                      [i..<NUM_STEPS_POLY K]"
  using assms
proof (induction K pts_x pts_y c i "(ax, ay)" arbitrary: ax ay rule: extract_loop.induct)
  case (1 K pts_x pts_y c i ax ay)
  show ?case
  proof (cases "i < NUM_STEPS_POLY K")
    case False
    with "1.prems" show ?thesis by (simp add: extract_loop.simps)
  next
    case True
    from "1.prems"(1) True have ne: "\<not> length pts_x = 0"
      by (subst (asm) extract_loop.simps) (auto split: if_splits)
    let ?idx = "window_index K (length pts_x) c i"
    from "1.prems"(1) True ne
    have ok: "to_size_t ?idx < length pts_x \<and> to_size_t ?idx < length pts_y"
      by (subst (asm) extract_loop.simps) (auto simp: Let_def split: if_splits)
    from "1.prems"(1) True ne ok
    have rec: "extract_loop K pts_x pts_y c (i + 1)
                 (ax @ [pts_x ! to_size_t ?idx], ay @ [pts_y ! to_size_t ?idx]) = Inr (cx, cy)"
      by (subst (asm) extract_loop.simps) (auto simp: Let_def split: if_splits)
    have l: "i + 1 \<le> NUM_STEPS_POLY K" using True by simp
    have u: "[i..<NUM_STEPS_POLY K] = i # [i + 1..<NUM_STEPS_POLY K]"
      using True by (simp add: upt_conv_Cons)
    from "1.hyps"[OF True ne refl ok rec l] show ?thesis
      unfolding u by simp
  qed
qed

lemma closest_window_points:
  assumes "closest_window K pts_x pts_y px py = Inr (cx, cy)"
  shows "cx = map (\<lambda>k. pts_x ! to_size_t
                     (window_index K (length pts_x)
                        (find_closest pts_x pts_y px py - int (NUM_STEPS_BACK K)) k))
                [0..<NUM_STEPS_POLY K]
     \<and> cy = map (\<lambda>k. pts_y ! to_size_t
                     (window_index K (length pts_x)
                        (find_closest pts_x pts_y px py - int (NUM_STEPS_BACK K)) k))
                [0..<NUM_STEPS_POLY K]"
  using assms
    extract_loop_points[of K pts_x pts_y
      "find_closest pts_x pts_y px py - int (NUM_STEPS_BACK K)" 0 "[]" "[]" cx cy]
  by (simp add: closest_window_def Let_def)

lemma closest_window_length:
  assumes "closest_window K pts_x pts_y px py = Inr (cx, cy)"
  shows "length cx = NUM_STEPS_POLY K \<and> length cy = NUM_STEPS_POLY K"
  using closest_window_points[OF assms] by simp


text \<open>
  C2. The spec states that window point \<open>k\<close> is the path point at the mathematical
  remainder of \<open>closest_idx - NUM_STEPS_BACK + k * STEP_POLY\<close> by the path length, also
  when the shifted index is negative. On the path (10, 0), (20, 0), (30, 0) with the car
  at (10, 0) the closest index is 0 and the shifted index is -1; the remainder gives the
  window of the points 2, 0, 1, 2, 0, 1, that is the x values 30, 10, 20, 30, 10, 20. The
  program converts -1 to \<open>2^64 - 1\<close>, whose remainder by 3 is 0, and reads the points
  0, 0, 1, 2, 0, 1.
\<close>

theorem closest_window_negative_shift:
  "find_closest [10, 20, 30] [0, 0, 0] 10 0 = 0
   \<and> closest_window K_example [10, 20, 30] [0, 0, 0] 10 0
       = Inr ([10, 10, 20, 30, 10, 20], [0, 0, 0, 0, 0, 0])
   \<and> map (\<lambda>k. [10, 20, 30 :: double]
                 ! nat ((0 - int (NUM_STEPS_BACK K_example) + int k * int (STEP_POLY K_example))
                        mod 3))
        [0..<6]
       = [30, 10, 20, 30, 10, 20]"
proof -
  have c: "find_closest [10, 20, 30] [0, 0, 0] 10 0 = 0"
    by (simp add: find_closest_def find_closest_loop.simps to_int_def)
  have w: "closest_window K_example [10, 20, 30] [0, 0, 0] 10 0
             = Inr ([10, 10, 20, 30, 10, 20], [0, 0, 0, 0, 0, 0])"
    by (simp add: closest_window_def c extract_loop.simps window_index_def to_int_def
          to_size_t_def K_example_def)
  have "[0..<6] = [0, 1, 2, 3, 4, 5]" by (simp add: upt_rec)
  hence m: "map (\<lambda>k. [10, 20, 30 :: double]
                 ! nat ((0 - int (NUM_STEPS_BACK K_example) + int k * int (STEP_POLY K_example))
                        mod 3))
        [0..<6]
       = [30, 10, 20, 30, 10, 20]"
    by (simp add: K_example_def)
  from c w m show ?thesis by simp
qed

subsection \<open>The x spacing check\<close>

lemma guard_loop_prefix:
  assumes "guard_loop K cx cy px py sn cs i (xv0, yv0) = (xv, yv, w)"
    and "xv0 = map (\<lambda>j. x_rot (cx ! j) (cy ! j) px py sn cs) [0..<i]"
    and "yv0 = map (\<lambda>j. y_rot (cx ! j) (cy ! j) px py sn cs) [0..<i]"
    and "i \<le> NUM_STEPS_POLY K"
  shows "\<exists>m. i \<le> m \<and> m \<le> NUM_STEPS_POLY K
           \<and> xv = map (\<lambda>j. x_rot (cx ! j) (cy ! j) px py sn cs) [0..<m]
           \<and> yv = map (\<lambda>j. y_rot (cx ! j) (cy ! j) px py sn cs) [0..<m]
           \<and> (\<forall>j. i \<le> j \<and> j < m \<and> POLY_DEGREE K < j \<longrightarrow>
                 X_DELTA_MIN_VALUE K \<le> x_rot (cx ! j) (cy ! j) px py sn cs
                                      - x_rot (cx ! (j - 1)) (cy ! (j - 1)) px py sn cs)
           \<and> (if m < NUM_STEPS_POLY K
               then POLY_DEGREE K < m
                    \<and> x_rot (cx ! m) (cy ! m) px py sn cs
                        - x_rot (cx ! (m - 1)) (cy ! (m - 1)) px py sn cs < X_DELTA_MIN_VALUE K
                    \<and> w = [X_delta_too_low m]
               else w = [])"
  using assms
proof (induction K cx cy px py sn cs i "(xv0, yv0)" arbitrary: xv0 yv0
       rule: guard_loop.induct)
  case (1 K cx cy px py sn cs i xv0 yv0)
  let ?X = "\<lambda>j. x_rot (cx ! j) (cy ! j) px py sn cs"
  let ?Y = "\<lambda>j. y_rot (cx ! j) (cy ! j) px py sn cs"
  show ?case
  proof (cases "i < NUM_STEPS_POLY K")
    case False
    with "1.prems" have "i = NUM_STEPS_POLY K" "xv = xv0" "yv = yv0" "w = []"
      by (simp_all add: guard_loop.simps)
    with "1.prems" show ?thesis by (intro exI[of _ i]) simp
  next
    case lt: True
    have prev: "0 < i \<Longrightarrow> xv0 ! (i - 1) = ?X (i - 1)"
      using "1.prems"(2) by simp
    show ?thesis
    proof (cases "POLY_DEGREE K < i \<and> ?X i - xv0 ! (i - 1) < X_DELTA_MIN_VALUE K")
      case True
      with lt "1.prems"(1) have "xv = xv0" "yv = yv0" "w = [X_delta_too_low i]"
        by (simp_all add: guard_loop.simps)
      moreover from True prev have "?X i - ?X (i - 1) < X_DELTA_MIN_VALUE K" by simp
      ultimately show ?thesis using "1.prems" lt True
        by (intro exI[of _ i]) simp
    next
      case False
      hence nb: "\<not> (POLY_DEGREE K < i \<and> ?X i - xv0 ! (i - 1) < X_DELTA_MIN_VALUE K)" .
      from lt nb "1.prems"(1)
      have rec: "guard_loop K cx cy px py sn cs (i + 1) (xv0 @ [?X i], yv0 @ [?Y i]) = (xv, yv, w)"
        by (subst (asm) guard_loop.simps) (auto simp: Let_def split: if_splits)
      have x1: "xv0 @ [?X i] = map ?X [0..<i + 1]" using "1.prems"(2) by simp
      have y1: "yv0 @ [?Y i] = map ?Y [0..<i + 1]" using "1.prems"(3) by simp
      have "i + 1 \<le> NUM_STEPS_POLY K" using lt by simp
      from "1.hyps"[OF lt refl refl nb rec x1 y1 this]
      obtain m where m: "i + 1 \<le> m" "m \<le> NUM_STEPS_POLY K"
        "xv = map ?X [0..<m]" "yv = map ?Y [0..<m]"
        "\<forall>j. i + 1 \<le> j \<and> j < m \<and> POLY_DEGREE K < j \<longrightarrow> X_DELTA_MIN_VALUE K \<le> ?X j - ?X (j - 1)"
        "if m < NUM_STEPS_POLY K
         then POLY_DEGREE K < m \<and> ?X m - ?X (m - 1) < X_DELTA_MIN_VALUE K \<and> w = [X_delta_too_low m]
         else w = []"
        by auto
      have here: "POLY_DEGREE K < i \<longrightarrow> X_DELTA_MIN_VALUE K \<le> ?X i - ?X (i - 1)"
        using nb prev by auto
      have "\<forall>j. i \<le> j \<and> j < m \<and> POLY_DEGREE K < j \<longrightarrow> X_DELTA_MIN_VALUE K \<le> ?X j - ?X (j - 1)"
      proof (intro allI impI)
        fix j assume j: "i \<le> j \<and> j < m \<and> POLY_DEGREE K < j"
        show "X_DELTA_MIN_VALUE K \<le> ?X j - ?X (j - 1)"
        proof (cases "j = i")
          case True with here j show ?thesis by simp
        next
          case False with j m(5) show ?thesis by simp
        qed
      qed
      with m show ?thesis by (intro exI[of _ m]) simp
    qed
  qed
qed


lemma stability_guard_prefix:
  assumes "stability_guard K cx cy px py sn cs = (xv, yv, w)"
  shows "\<exists>m. m \<le> NUM_STEPS_POLY K
           \<and> xv = map (x_local cx cy px py sn cs) [0..<m]
           \<and> yv = map (y_local cx cy px py sn cs) [0..<m]
           \<and> (\<forall>j. j < m \<and> POLY_DEGREE K < j \<longrightarrow>
                 X_DELTA_MIN_VALUE K \<le> x_local cx cy px py sn cs j - x_local cx cy px py sn cs (j - 1))
           \<and> (if m < NUM_STEPS_POLY K
               then POLY_DEGREE K < m
                    \<and> x_local cx cy px py sn cs m - x_local cx cy px py sn cs (m - 1) < X_DELTA_MIN_VALUE K
                    \<and> w = [X_delta_too_low m]
               else w = [])"
proof -
  have eq: "x_local cx cy px py sn cs = (\<lambda>j. x_rot (cx ! j) (cy ! j) px py sn cs)"
           "y_local cx cy px py sn cs = (\<lambda>j. y_rot (cx ! j) (cy ! j) px py sn cs)"
    by (simp_all add: x_local_def y_local_def fun_eq_iff)
  from assms have "guard_loop K cx cy px py sn cs 0 ([], []) = (xv, yv, w)"
    by (simp add: stability_guard_def)
  from guard_loop_prefix[OF this] show ?thesis
    unfolding eq by simp
qed

text \<open>
  C3. The accepted points are a prefix of the transformed window, in order. The first
  \<open>POLY_DEGREE + 1\<close> points are in it whatever their spacing. A later point \<open>j\<close> is in
  it exactly when every point from \<open>POLY_DEGREE + 1\<close> to \<open>j\<close> lies at least
  \<open>X_DELTA_MIN_VALUE\<close> ahead in x of the point before it, which is the previously
  accepted one: the first violation ends the window. So a window whose first x spacing
  below the threshold past the degree is at position \<open>k\<close> gives exactly \<open>k\<close> points,
  and a window with no such spacing is accepted in full.
\<close>

theorem stability_guard_truncates:
  assumes "length closest_pts_x = NUM_STEPS_POLY K"
    and "length closest_pts_y = NUM_STEPS_POLY K"
    and "stability_guard K closest_pts_x closest_pts_y px py sn cs = (xvals_vec, yvals_vec, broke)"
  shows "length xvals_vec \<le> NUM_STEPS_POLY K
     \<and> xvals_vec = map (x_local closest_pts_x closest_pts_y px py sn cs) [0..<length xvals_vec]
     \<and> yvals_vec = map (y_local closest_pts_x closest_pts_y px py sn cs) [0..<length xvals_vec]
     \<and> (\<forall>j. j < NUM_STEPS_POLY K \<and> j \<le> POLY_DEGREE K \<longrightarrow> j < length xvals_vec)
     \<and> (\<forall>j. j < NUM_STEPS_POLY K \<and> POLY_DEGREE K < j \<longrightarrow>
           (j < length xvals_vec \<longleftrightarrow>
              (\<forall>i. POLY_DEGREE K < i \<and> i \<le> j \<longrightarrow>
                 X_DELTA_MIN_VALUE K \<le> x_local closest_pts_x closest_pts_y px py sn cs i
                                      - x_local closest_pts_x closest_pts_y px py sn cs (i - 1))))
     \<and> (\<forall>k. POLY_DEGREE K < k \<and> k < NUM_STEPS_POLY K
              \<and> x_local closest_pts_x closest_pts_y px py sn cs k
                  - x_local closest_pts_x closest_pts_y px py sn cs (k - 1) < X_DELTA_MIN_VALUE K
              \<and> (\<forall>i. POLY_DEGREE K < i \<and> i < k \<longrightarrow>
                    X_DELTA_MIN_VALUE K \<le> x_local closest_pts_x closest_pts_y px py sn cs i
                                         - x_local closest_pts_x closest_pts_y px py sn cs (i - 1))
            \<longrightarrow> length xvals_vec = k)
     \<and> ((\<forall>i. POLY_DEGREE K < i \<and> i < NUM_STEPS_POLY K \<longrightarrow>
             X_DELTA_MIN_VALUE K \<le> x_local closest_pts_x closest_pts_y px py sn cs i
                                  - x_local closest_pts_x closest_pts_y px py sn cs (i - 1))
          \<longrightarrow> length xvals_vec = NUM_STEPS_POLY K)"
proof -
  let ?X = "x_local closest_pts_x closest_pts_y px py sn cs"
  let ?ok = "\<lambda>i. X_DELTA_MIN_VALUE K \<le> ?X i - ?X (i - 1)"
  from stability_guard_prefix[OF assms(3)]
  obtain m where m: "m \<le> NUM_STEPS_POLY K"
      "xvals_vec = map ?X [0..<m]"
      "yvals_vec = map (y_local closest_pts_x closest_pts_y px py sn cs) [0..<m]"
      "\<forall>j. j < m \<and> POLY_DEGREE K < j \<longrightarrow> ?ok j"
      "if m < NUM_STEPS_POLY K
       then POLY_DEGREE K < m \<and> ?X m - ?X (m - 1) < X_DELTA_MIN_VALUE K \<and> broke = [X_delta_too_low m]
       else broke = []"
    by blast
  have len: "length xvals_vec = m" using m(2) by simp
  have stop: "m < NUM_STEPS_POLY K \<Longrightarrow> POLY_DEGREE K < m \<and> \<not> ?ok m"
    using m(5) by (simp split: if_splits)
  have first: "\<forall>j. j < NUM_STEPS_POLY K \<and> j \<le> POLY_DEGREE K \<longrightarrow> j < m"
    using stop m(1) by (metis leI le_neq_implies_less less_le_trans not_less_iff_gr_or_eq)
  have iff: "\<forall>j. j < NUM_STEPS_POLY K \<and> POLY_DEGREE K < j \<longrightarrow>
               (j < m \<longleftrightarrow> (\<forall>i. POLY_DEGREE K < i \<and> i \<le> j \<longrightarrow> ?ok i))"
  proof (intro allI impI iffI)
    fix j i assume "j < NUM_STEPS_POLY K \<and> POLY_DEGREE K < j" "j < m" "POLY_DEGREE K < i \<and> i \<le> j"
    thus "?ok i" using m(4) by simp
  next
    fix j assume j: "j < NUM_STEPS_POLY K \<and> POLY_DEGREE K < j"
      and all: "\<forall>i. POLY_DEGREE K < i \<and> i \<le> j \<longrightarrow> ?ok i"
    show "j < m"
    proof (rule ccontr)
      assume "\<not> j < m"
      hence "m \<le> j" by simp
      with j have "m < NUM_STEPS_POLY K" by simp
      from stop[OF this] \<open>m \<le> j\<close> all show False by blast
    qed
  qed
  have at_k: "\<forall>k. POLY_DEGREE K < k \<and> k < NUM_STEPS_POLY K \<and> ?X k - ?X (k - 1) < X_DELTA_MIN_VALUE K
                 \<and> (\<forall>i. POLY_DEGREE K < i \<and> i < k \<longrightarrow> ?ok i) \<longrightarrow> m = k"
  proof (intro allI impI)
    fix k assume k: "POLY_DEGREE K < k \<and> k < NUM_STEPS_POLY K \<and> ?X k - ?X (k - 1) < X_DELTA_MIN_VALUE K
                 \<and> (\<forall>i. POLY_DEGREE K < i \<and> i < k \<longrightarrow> ?ok i)"
    have "\<not> k < m" using k m(4) by auto
    moreover have "\<not> m < k"
    proof
      assume "m < k"
      with k have "m < NUM_STEPS_POLY K" by simp
      from stop[OF this] \<open>m < k\<close> k show False by blast
    qed
    ultimately show "m = k" by simp
  qed
  have full: "(\<forall>i. POLY_DEGREE K < i \<and> i < NUM_STEPS_POLY K \<longrightarrow> ?ok i) \<longrightarrow> m = NUM_STEPS_POLY K"
    using stop m(1) by (metis le_neq_implies_less)
  show ?thesis
    unfolding len using m(1,2,3) first iff at_k full len by simp
qed

text \<open>
  A window of six points whose last x repeats: five points are accepted.
\<close>

theorem stability_guard_truncates_witness:
  "stability_guard K_example [0, 1, 2, 3, 4, 4] [0, 0, 0, 0, 0, 0] 0 0 0 1
     = ([0, 1, 2, 3, 4], [0, 0, 0, 0, 0], [X_delta_too_low 5])
   \<and> length [0, 1, 2, 3, 4 :: double] = 5
   \<and> x_local [0, 1, 2, 3, 4, 4] [0, 0, 0, 0, 0, 0] 0 0 0 1 5
       - x_local [0, 1, 2, 3, 4, 4] [0, 0, 0, 0, 0, 0] 0 0 0 1 4 < X_DELTA_MIN_VALUE K_example"
proof -
  have l1: "length [0, 1, 2, 3, 4, 4 :: double] = NUM_STEPS_POLY K_example"
    and l2: "length [0, 0, 0, 0, 0, 0 :: double] = NUM_STEPS_POLY K_example"
    by (simp_all add: K_example_def)
  have ev: "stability_guard K_example [0, 1, 2, 3, 4, 4] [0, 0, 0, 0, 0, 0] 0 0 0 1
     = ([0, 1, 2, 3, 4], [0, 0, 0, 0, 0], [X_delta_too_low 5])"
    by (simp add: stability_guard_def guard_loop.simps K_example_def x_rot_def y_rot_def)
  from stability_guard_truncates[OF l1 l2 ev]
  have "length [0, 1, 2, 3, 4 :: double] \<le> NUM_STEPS_POLY K_example" by blast
  with ev show ?thesis
    by (simp add: x_local_def x_rot_def K_example_def)
qed

subsection \<open>A concrete cycle\<close>

text \<open>
  A fit that returns the coefficients 1/2, 1, 0, 0 and a solver that returns the
  steering 1/5 and the acceleration 1/2; a node with all inputs, on a straight path
  along the x axis, whose heading after the latency is 0.
\<close>

definition E_example :: externals where
  "E_example =
     \<lparr>polyfit = (\<lambda>xvals yvals order. [1 / 2, 1, 0, 0]),
      Solve = (\<lambda>state coeffs. [1 / 5, 1 / 2])\<rparr>"

definition s_example :: node where
  "s_example =
     \<lparr>m_pts_x = [0, 1, 2, 3, 4, 5, 6, 7], m_pts_y = [0, 0, 0, 0, 0, 0, 0, 0],
      m_pts_OK = True, m_pos_OK = True, m_speed_OK = True, m_psi_OK = True,
      m_debug = False, m_steer = 2 / 5, m_throttle = 0, m_speed = 1,
      m_pos_x = 1, m_pos_y = 0, m_psi = 4 / 25, m_latency = 1 / 10,
      m_time = 0, m_old_time = 0, m_last_stop_msg_ts = 0\<rparr>"

lemma example_lat:
  "v_lat s_example = 1" "psi_lat K_example s_example = 0"
  "pos_x_lat K_example s_example = 11 / 10" "pos_y_lat K_example s_example = 0"
  by (simp_all add: v_lat_def psi_lat_def pos_x_lat_def pos_y_lat_def s_example_def K_example_def)

lemma example_closest:
  "find_closest [0, 1, 2, 3, 4, 5, 6, 7] [0, 0, 0, 0, 0, 0, 0, 0] (11 / 10) 0 = 1"
  by (simp add: find_closest_def find_closest_loop.simps to_int_def)

lemma example_window:
  "closest_window K_example [0, 1, 2, 3, 4, 5, 6, 7] [0, 0, 0, 0, 0, 0, 0, 0] (11 / 10) 0
     = Inr ([0, 1, 2, 3, 4, 5], [0, 0, 0, 0, 0, 0])"
  by (simp add: closest_window_def example_closest extract_loop.simps window_index_def
        to_int_def to_size_t_def K_example_def)

lemma example_guard:
  "stability_guard K_example [0, 1, 2, 3, 4, 5] [0, 0, 0, 0, 0, 0] (11 / 10) 0 0 1
     = ([- 11 / 10, - 1 / 10, 9 / 10, 19 / 10, 29 / 10, 39 / 10], [0, 0, 0, 0, 0, 0], [])"
  by (simp add: stability_guard_def guard_loop.simps K_example_def x_rot_def y_rot_def)

lemma example_cycle:
  "ready_cycle K_example E_example te s_example
     = Inr (s_example\<lparr>m_steer := 3 / 10\<rparr>,
            [Call_polyfit [- 11 / 10, - 1 / 10, 9 / 10, 19 / 10, 29 / 10, 39 / 10]
               [0, 0, 0, 0, 0, 0] 3,
             Warn (Coeffs (1 / 2) 1 0 0),
             Warn (Cte_epsi_psi (1 / 2) (- (pi / 4)) (4 / 25)),
             Call_Solve [0, 0, 0, 1, 1 / 2, - (pi / 4)] [1 / 2, 1, 0, 0],
             Warn (Steer_throttle (1 / 5) (1 / 2)),
             Publish_angle (3 / 10),
             Warn (Dt 0 te)])"
proof -
  have f: "m_pts_x s_example = [0, 1, 2, 3, 4, 5, 6, 7]"
    "m_pts_y s_example = [0, 0, 0, 0, 0, 0, 0, 0]" "m_debug s_example = False"
    "m_psi s_example = 4 / 25" "m_time s_example = 0" "m_old_time s_example = 0"
    by (simp_all add: s_example_def)
  have k: "POLY_DEGREE K_example = 3" "CENTER_IN_DZIK K_example = 1 / 2"
    by (simp_all add: K_example_def)
  have e: "polyfit E_example = (\<lambda>xvals yvals order. [1 / 2, 1, 0, 0])"
    "Solve E_example = (\<lambda>state coeffs. [1 / 5, 1 / 2])"
    by (simp_all add: E_example_def)
  have c: "cte [1 / 2, 1, 0, 0] = 1 / 2" "epsi [1 / 2, 1, 0, 0] = - (pi / 4)"
    by (simp_all add: cte_def epsi_def polyeval_def arctan_one)
  show ?thesis
    unfolding ready_cycle_def example_lat f example_window
    by (simp add: example_guard k e c f Let_def)
qed


lemma example_iteration:
  "loop_iteration K_example E_example 0 0 s_example
     = Inr (s_example\<lparr>m_steer := 3 / 10\<rparr>,
            [Call_polyfit [- 11 / 10, - 1 / 10, 9 / 10, 19 / 10, 29 / 10, 39 / 10]
               [0, 0, 0, 0, 0, 0] 3,
             Warn (Coeffs (1 / 2) 1 0 0),
             Warn (Cte_epsi_psi (1 / 2) (- (pi / 4)) (4 / 25)),
             Call_Solve [0, 0, 0, 1, 1 / 2, - (pi / 4)] [1 / 2, 1, 0, 0],
             Warn (Steer_throttle (1 / 5) (1 / 2)),
             Publish_angle (3 / 10),
             Warn (Dt 0 0)])"
proof -
  have t: "s_example\<lparr>m_time := 0\<rparr> = s_example" by (simp add: s_example_def)
  have ok: "m_pts_OK s_example" "m_speed_OK s_example" "m_pos_OK s_example" "m_psi_OK s_example"
    by (simp_all add: s_example_def)
  have "s_example\<lparr>m_steer := 3 / 10, m_old_time := m_time s_example\<rparr>
          = s_example\<lparr>m_steer := 3 / 10\<rparr>"
    by (simp add: s_example_def)
  thus ?thesis
    by (simp add: loop_iteration_def t ok example_cycle)
qed

subsection \<open>What a cycle with all inputs does\<close>

lemma ready_cycle_Inr:
  assumes "ready_cycle K E te s = Inr (s', evs)"
  obtains cx cy xv yv w coeffs vars published where
    "closest_window K (m_pts_x s) (m_pts_y s) (pos_x_lat K s) (pos_y_lat K s) = Inr (cx, cy)"
    "stability_guard K cx cy (pos_x_lat K s) (pos_y_lat K s) (sin (psi_lat K s)) (cos (psi_lat K s))
       = (xv, yv, w)"
    "coeffs = polyfit E xv yv (POLY_DEGREE K)"
    "4 \<le> length coeffs"
    "vars = Solve E [0, 0, 0, v_lat s, cte coeffs, epsi coeffs] coeffs"
    "2 \<le> length vars"
    "s' = s\<lparr>m_steer := CENTER_IN_DZIK K - vars ! 0\<rparr>"
    "(if m_debug s
      then debug_markers xv yv vars coeffs (pos_x_lat K s) (pos_y_lat K s)
             (sin (psi_lat K s)) (cos (psi_lat K s))
      else Inr []) = Inr published"
    "evs = map Warn w @
           [Call_polyfit xv yv (POLY_DEGREE K),
            Warn (Coeffs (coeffs ! 0) (coeffs ! 1) (coeffs ! 2) (coeffs ! 3)),
            Warn (Cte_epsi_psi (cte coeffs) (epsi coeffs) (m_psi s)),
            Call_Solve [0, 0, 0, v_lat s, cte coeffs, epsi coeffs] coeffs,
            Warn (Steer_throttle (vars ! 0) (vars ! 1)),
            Publish_angle (CENTER_IN_DZIK K - vars ! 0)] @
           published @
           [Warn (Dt (m_time s - m_old_time s) (te - m_time s))]"
  using assms
  unfolding ready_cycle_def Let_def
  by (auto split: sum.splits prod.splits if_splits)


lemma debug_markers_events:
  assumes "debug_markers xv yv vars coeffs px py sn cs = Inr published"
  shows "\<exists>a b c. published = [Publish_closest a, Publish_next_pos b, Publish_poly c]"
  using assms unfolding debug_markers_def by (auto split: sum.splits)

lemma published_events:
  assumes "(if dbg then debug_markers xv yv vars coeffs px py sn cs else Inr []) = Inr published"
  shows "published = [] \<or> (\<exists>a b c. published = [Publish_closest a, Publish_next_pos b, Publish_poly c])"
  using assms debug_markers_events by (auto split: if_splits)

lemma loop_iteration_not_ready:
  assumes "\<not> (m_pts_OK s \<and> m_speed_OK s \<and> m_pos_OK s \<and> m_psi_OK s)"
  shows "loop_iteration K E t0 t1 s
     = Inr (s\<lparr>m_time := t0, m_old_time := t0\<rparr>,
            [Warn (No_optimization (m_pts_OK s) (m_speed_OK s) (m_pos_OK s) (m_psi_OK s))])"
  using assms by (auto simp: loop_iteration_def Let_def)

lemma loop_iteration_ready:
  assumes "m_pts_OK s \<and> m_speed_OK s \<and> m_pos_OK s \<and> m_psi_OK s"
    and "loop_iteration K E t0 t1 s = Inr (s1, evs)"
  obtains s' where "ready_cycle K E t1 (s\<lparr>m_time := t0\<rparr>) = Inr (s', evs)"
    and "s1 = s'\<lparr>m_old_time := m_time s'\<rparr>"
  using assms by (auto simp: loop_iteration_def Let_def split: sum.splits)

lemma ready_cycle_state:
  assumes "ready_cycle K E te s = Inr (s', evs)"
  obtains state coeffs where "Call_Solve state coeffs \<in> set evs"
    and "2 \<le> length (Solve E state coeffs)"
    and "Warn (Steer_throttle (Solve E state coeffs ! 0) (Solve E state coeffs ! 1)) \<in> set evs"
    and "Publish_angle (CENTER_IN_DZIK K - Solve E state coeffs ! 0) \<in> set evs"
    and "s' = s\<lparr>m_steer := CENTER_IN_DZIK K - Solve E state coeffs ! 0\<rparr>"
proof -
  from assms obtain coeffs vars where
    "vars = Solve E [0, 0, 0, v_lat s, cte coeffs, epsi coeffs] coeffs"
    "2 \<le> length vars" "s' = s\<lparr>m_steer := CENTER_IN_DZIK K - vars ! 0\<rparr>"
    "Call_Solve [0, 0, 0, v_lat s, cte coeffs, epsi coeffs] coeffs \<in> set evs"
    "Warn (Steer_throttle (vars ! 0) (vars ! 1)) \<in> set evs"
    "Publish_angle (CENTER_IN_DZIK K - vars ! 0) \<in> set evs"
    by (rule ready_cycle_Inr) simp
  thus ?thesis using that by blast
qed

lemma loop_iteration_frame:
  assumes "loop_iteration K E t0 t1 s = Inr (s1, evs)"
  shows "m_pts_OK s1 = m_pts_OK s \<and> m_speed_OK s1 = m_speed_OK s \<and> m_pos_OK s1 = m_pos_OK s
     \<and> m_psi_OK s1 = m_psi_OK s \<and> m_throttle s1 = m_throttle s \<and> m_latency s1 = m_latency s
     \<and> m_speed s1 = m_speed s \<and> m_psi s1 = m_psi s"
proof (cases "m_pts_OK s \<and> m_speed_OK s \<and> m_pos_OK s \<and> m_psi_OK s")
  case False
  from loop_iteration_not_ready[OF False, of K E t0 t1] assms show ?thesis by auto
next
  case True
  from True assms obtain s' where r: "ready_cycle K E t1 (s\<lparr>m_time := t0\<rparr>) = Inr (s', evs)"
    and s1: "s1 = s'\<lparr>m_old_time := m_time s'\<rparr>"
    by (rule loop_iteration_ready)
  from r obtain x where "s' = s\<lparr>m_time := t0, m_steer := x\<rparr>"
    by (rule ready_cycle_state) simp
  with s1 show ?thesis by simp
qed

lemma callback_frame:
  "m_steer (callback m s) = m_steer s \<and> m_throttle (callback m s) = m_throttle s
   \<and> m_latency (callback m s) = m_latency s"
  by (cases m) (simp_all add: centerline_cb_def odom_cb_def pf_pose_odom_cb_def Let_def)

lemma spinOnce_frame:
  "m_steer (spinOnce ms s) = m_steer s \<and> m_throttle (spinOnce ms s) = m_throttle s
   \<and> m_latency (spinOnce ms s) = m_latency s"
  by (induction ms arbitrary: s) (simp_all add: callback_frame)

lemma callback_flags:
  "(m_pts_OK s \<longrightarrow> m_pts_OK (callback m s)) \<and> (m_speed_OK s \<longrightarrow> m_speed_OK (callback m s))
   \<and> (m_pos_OK s \<longrightarrow> m_pos_OK (callback m s)) \<and> (m_psi_OK s \<longrightarrow> m_psi_OK (callback m s))"
  by (cases m) (simp_all add: centerline_cb_def odom_cb_def pf_pose_odom_cb_def Let_def)

lemma spinOnce_flags:
  "(m_pts_OK s \<longrightarrow> m_pts_OK (spinOnce ms s)) \<and> (m_speed_OK s \<longrightarrow> m_speed_OK (spinOnce ms s))
   \<and> (m_pos_OK s \<longrightarrow> m_pos_OK (spinOnce ms s)) \<and> (m_psi_OK s \<longrightarrow> m_psi_OK (spinOnce ms s))"
proof (induction ms arbitrary: s)
  case Nil
  show ?case by simp
next
  case (Cons m ms)
  from Cons.IH[of "callback m s"] callback_flags[of s m] show ?case by simp
qed

lemma loop_flags:
  assumes "loop K E its s = Inr (s', evs)"
  shows "(m_pts_OK s \<longrightarrow> m_pts_OK s') \<and> (m_speed_OK s \<longrightarrow> m_speed_OK s')
     \<and> (m_pos_OK s \<longrightarrow> m_pos_OK s') \<and> (m_psi_OK s \<longrightarrow> m_psi_OK s')"
  using assms
proof (induction its arbitrary: s evs)
  case Nil
  thus ?case by simp
next
  case (Cons it its)
  from Cons.prems obtain s1 evs1 evs2 where
    a: "loop_iteration K E (t_start it) (t_end it) s = Inr (s1, evs1)"
    and b: "loop K E its (spinOnce (pending it) s1) = Inr (s', evs2)"
    by (auto split: sum.splits)
  from loop_iteration_frame[OF a] spinOnce_flags[of s1 "pending it"] Cons.IH[OF b]
  show ?case by simp
qed

lemma loop_throttle:
  assumes "loop K E its s = Inr (s', evs)"
  shows "m_throttle s' = m_throttle s"
  using assms
proof (induction its arbitrary: s evs)
  case Nil
  thus ?case by simp
next
  case (Cons it its)
  from Cons.prems obtain s1 evs1 evs2 where
    a: "loop_iteration K E (t_start it) (t_end it) s = Inr (s1, evs1)"
    and b: "loop K E its (spinOnce (pending it) s1) = Inr (s', evs2)"
    by (auto split: sum.splits)
  from loop_iteration_frame[OF a] spinOnce_frame[of "pending it" s1] Cons.IH[OF b]
  show ?case by simp
qed

lemma loop_no_input:
  assumes "\<forall>it \<in> set its. pending it = []"
    and "\<not> (m_pts_OK s \<and> m_speed_OK s \<and> m_pos_OK s \<and> m_psi_OK s)"
  shows "\<exists>s'. loop K E its s
           = Inr (s', replicate (length its)
                        (Warn (No_optimization (m_pts_OK s) (m_speed_OK s) (m_pos_OK s) (m_psi_OK s))))"
  using assms
proof (induction its arbitrary: s)
  case Nil
  show ?case by simp
next
  case (Cons it its)
  let ?s1 = "s\<lparr>m_time := t_start it, m_old_time := t_start it\<rparr>"
  have p: "pending it = []" using Cons.prems(1) by simp
  have "\<forall>it \<in> set its. pending it = []" using Cons.prems(1) by simp
  moreover have "\<not> (m_pts_OK ?s1 \<and> m_speed_OK ?s1 \<and> m_pos_OK ?s1 \<and> m_psi_OK ?s1)"
    using Cons.prems(2) by simp
  ultimately obtain s' where
    "loop K E its ?s1 = Inr (s', replicate (length its)
        (Warn (No_optimization (m_pts_OK ?s1) (m_speed_OK ?s1) (m_pos_OK ?s1) (m_psi_OK ?s1))))"
    using Cons.IH[of ?s1] by blast
  thus ?case
    by (simp add: loop_iteration_not_ready[OF Cons.prems(2)] p)
qed


subsection \<open>Latency compensation\<close>

text \<open>
  The Latency Compensator as the spec states it: from the state \<open>(x, y, psi, v)\<close>, the
  last commanded steering \<open>delta\<close> and throttle \<open>a\<close>, the latency \<open>L\<close> and the
  wheelbase, one Euler step in which the new speed and heading feed the later equations.
\<close>

definition spec_latency_compensator ::
  "double \<Rightarrow> double \<Rightarrow> double \<Rightarrow> double \<Rightarrow> double \<Rightarrow> double \<Rightarrow> double \<Rightarrow> double
     \<Rightarrow> double \<times> double \<times> double \<times> double" where
  "spec_latency_compensator x y psi v delta a L Lf' =
     (let v' = v + L * a;
          psi' = psi - L * (v' * delta / Lf');
          x' = x + L * (v' * cos psi');
          y' = y + L * (v' * sin psi')
      in (x', y', psi', v'))"

text \<open>
  C4. In a cycle with all inputs the program's projected state is the spec's Euler step
  of the snapshot, with \<open>m_steer\<close> and \<open>m_throttle\<close> as the last commands; the cycle
  searches the path and takes the window at the projected position, turns the window by
  the projected heading and hands the projected speed to the solver. The wheelbase is
  not zero (the quotient by zero is not a real number in the program).
\<close>

theorem latency_compensation_euler_step:
  assumes "Lf K \<noteq> 0"
    and "spec_latency_compensator (m_pos_x s) (m_pos_y s) (m_psi s) (m_speed s)
           (m_steer s) (m_throttle s) (m_latency s) (Lf K) = (x', y', psi', v')"
  shows "v' = m_speed s + m_latency s * m_throttle s
     \<and> psi' = m_psi s - m_latency s * (v' * m_steer s / Lf K)
     \<and> x' = m_pos_x s + m_latency s * (v' * cos psi')
     \<and> y' = m_pos_y s + m_latency s * (v' * sin psi')
     \<and> pos_x_lat K s = x' \<and> pos_y_lat K s = y' \<and> psi_lat K s = psi' \<and> v_lat s = v'
     \<and> (\<forall>E te s1 evs. ready_cycle K E te s = Inr (s1, evs) \<longrightarrow>
           (\<exists>cx cy xv yv w.
              closest_window K (m_pts_x s) (m_pts_y s) x' y' = Inr (cx, cy)
              \<and> stability_guard K cx cy x' y' (sin psi') (cos psi') = (xv, yv, w)
              \<and> Call_Solve [0, 0, 0, v', cte (polyfit E xv yv (POLY_DEGREE K)),
                             epsi (polyfit E xv yv (POLY_DEGREE K))]
                   (polyfit E xv yv (POLY_DEGREE K)) \<in> set evs))"
proof -
  from assms(2) have eqs: "v' = m_speed s + m_latency s * m_throttle s"
    "psi' = m_psi s - m_latency s * (v' * m_steer s / Lf K)"
    "x' = m_pos_x s + m_latency s * (v' * cos psi')"
    "y' = m_pos_y s + m_latency s * (v' * sin psi')"
    by (auto simp: spec_latency_compensator_def Let_def)
  have v: "v_lat s = v'" using eqs(1) by (simp add: v_lat_def)
  have p: "psi_lat K s = psi'" using eqs(2) v by (simp add: psi_lat_def)
  have x: "pos_x_lat K s = x'" using eqs(3) v p by (simp add: pos_x_lat_def)
  have y: "pos_y_lat K s = y'" using eqs(4) v p by (simp add: pos_y_lat_def)
  have cyc: "\<forall>E te s1 evs. ready_cycle K E te s = Inr (s1, evs) \<longrightarrow>
           (\<exists>cx cy xv yv w.
              closest_window K (m_pts_x s) (m_pts_y s) x' y' = Inr (cx, cy)
              \<and> stability_guard K cx cy x' y' (sin psi') (cos psi') = (xv, yv, w)
              \<and> Call_Solve [0, 0, 0, v', cte (polyfit E xv yv (POLY_DEGREE K)),
                             epsi (polyfit E xv yv (POLY_DEGREE K))]
                   (polyfit E xv yv (POLY_DEGREE K)) \<in> set evs)"
  proof (intro allI impI)
    fix E te s1 evs assume "ready_cycle K E te s = Inr (s1, evs)"
    then obtain cx cy xv yv w coeffs vars published where r:
      "closest_window K (m_pts_x s) (m_pts_y s) (pos_x_lat K s) (pos_y_lat K s) = Inr (cx, cy)"
      "stability_guard K cx cy (pos_x_lat K s) (pos_y_lat K s) (sin (psi_lat K s)) (cos (psi_lat K s))
         = (xv, yv, w)"
      "coeffs = polyfit E xv yv (POLY_DEGREE K)"
      "Call_Solve [0, 0, 0, v_lat s, cte coeffs, epsi coeffs] coeffs \<in> set evs"
      by (rule ready_cycle_Inr) simp
    thus "\<exists>cx cy xv yv w.
              closest_window K (m_pts_x s) (m_pts_y s) x' y' = Inr (cx, cy)
              \<and> stability_guard K cx cy x' y' (sin psi') (cos psi') = (xv, yv, w)
              \<and> Call_Solve [0, 0, 0, v', cte (polyfit E xv yv (POLY_DEGREE K)),
                             epsi (polyfit E xv yv (POLY_DEGREE K))]
                   (polyfit E xv yv (POLY_DEGREE K)) \<in> set evs"
      unfolding v p x y by blast
  qed
  from eqs v p x y cyc show ?thesis by blast
qed

text \<open>The concrete node: the projected state is (11/10, 0, 0, 1).\<close>

theorem latency_compensation_euler_step_witness:
  "Lf K_example \<noteq> 0
   \<and> spec_latency_compensator (m_pos_x s_example) (m_pos_y s_example) (m_psi s_example)
       (m_speed s_example) (m_steer s_example) (m_throttle s_example) (m_latency s_example)
       (Lf K_example) = (11 / 10, 0, 0, 1)
   \<and> pos_x_lat K_example s_example = 11 / 10 \<and> psi_lat K_example s_example = 0
   \<and> v_lat s_example = 1"
proof -
  have l: "Lf K_example \<noteq> 0" by (simp add: K_example_def)
  have e: "spec_latency_compensator (m_pos_x s_example) (m_pos_y s_example) (m_psi s_example)
       (m_speed s_example) (m_steer s_example) (m_throttle s_example) (m_latency s_example)
       (Lf K_example) = (11 / 10, 0, 0, 1)"
    by (simp add: spec_latency_compensator_def s_example_def K_example_def)
  from latency_compensation_euler_step[OF l e] l e show ?thesis by blast
qed



subsection \<open>Tracking errors\<close>

lemma polyeval_from_zero: "polyeval_from (Suc i) cs 0 = 0"
  by (induction cs arbitrary: i) simp_all

lemma cte_head: "cte (c # cs) = c"
  by (simp add: cte_def polyeval_def polyeval_from_zero)

lemma polyfit_event_unique:
  assumes "ready_cycle K E te s = Inr (s', evs)"
    and "Call_polyfit xv yv d \<in> set evs"
  shows "d = POLY_DEGREE K
     \<and> Call_Solve [0, 0, 0, v_lat s, cte (polyfit E xv yv d), epsi (polyfit E xv yv d)]
         (polyfit E xv yv d) \<in> set evs
     \<and> Warn (Cte_epsi_psi (cte (polyfit E xv yv d)) (epsi (polyfit E xv yv d)) (m_psi s)) \<in> set evs
     \<and> 4 \<le> length (polyfit E xv yv d)
     \<and> (\<exists>cx cy w.
           closest_window K (m_pts_x s) (m_pts_y s) (pos_x_lat K s) (pos_y_lat K s) = Inr (cx, cy)
           \<and> stability_guard K cx cy (pos_x_lat K s) (pos_y_lat K s)
               (sin (psi_lat K s)) (cos (psi_lat K s)) = (xv, yv, w))"
proof -
  from assms(1) obtain cx cy xv0 yv0 w coeffs vars published where r:
    "closest_window K (m_pts_x s) (m_pts_y s) (pos_x_lat K s) (pos_y_lat K s) = Inr (cx, cy)"
    "stability_guard K cx cy (pos_x_lat K s) (pos_y_lat K s) (sin (psi_lat K s)) (cos (psi_lat K s))
       = (xv0, yv0, w)"
    "coeffs = polyfit E xv0 yv0 (POLY_DEGREE K)"
    "4 \<le> length coeffs"
    "(if m_debug s
      then debug_markers xv0 yv0 vars coeffs (pos_x_lat K s) (pos_y_lat K s)
             (sin (psi_lat K s)) (cos (psi_lat K s))
      else Inr []) = Inr published"
    "evs = map Warn w @
           [Call_polyfit xv0 yv0 (POLY_DEGREE K),
            Warn (Coeffs (coeffs ! 0) (coeffs ! 1) (coeffs ! 2) (coeffs ! 3)),
            Warn (Cte_epsi_psi (cte coeffs) (epsi coeffs) (m_psi s)),
            Call_Solve [0, 0, 0, v_lat s, cte coeffs, epsi coeffs] coeffs,
            Warn (Steer_throttle (vars ! 0) (vars ! 1)),
            Publish_angle (CENTER_IN_DZIK K - vars ! 0)] @
           published @
           [Warn (Dt (m_time s - m_old_time s) (te - m_time s))]"
    by (rule ready_cycle_Inr)
  from published_events[OF r(5)] assms(2)
  have "xv = xv0 \<and> yv = yv0 \<and> d = POLY_DEGREE K"
    unfolding r(6) by auto
  with r show ?thesis by auto
qed

text \<open>
  C5. For coefficients \<open>c0, c1, ...\<close> the cross-track error is \<open>c0\<close> and the heading
  error is \<open>- arctan c1\<close>; both are 0 when \<open>c0\<close> and \<open>c1\<close> are. A cycle that fitted
  these coefficients hands the solver the state \<open>(0, 0, 0, v', c0, - arctan c1)\<close>.
\<close>

theorem error_extraction:
  assumes "2 \<le> length coeffs"
  shows "cte coeffs = coeffs ! 0
     \<and> epsi coeffs = - arctan (coeffs ! 1)
     \<and> (coeffs ! 0 = 0 \<and> coeffs ! 1 = 0 \<longrightarrow> cte coeffs = 0 \<and> epsi coeffs = 0)
     \<and> (\<forall>K E te s s' evs xv yv.
           ready_cycle K E te s = Inr (s', evs)
           \<and> Call_polyfit xv yv (POLY_DEGREE K) \<in> set evs
           \<and> polyfit E xv yv (POLY_DEGREE K) = coeffs
           \<longrightarrow> Call_Solve [0, 0, 0, v_lat s, coeffs ! 0, - arctan (coeffs ! 1)] coeffs \<in> set evs)"
proof -
  from assms obtain c0 cs where c: "coeffs = c0 # cs" by (cases coeffs) auto
  have cte: "cte coeffs = coeffs ! 0" unfolding c by (simp add: cte_head)
  have epsi: "epsi coeffs = - arctan (coeffs ! 1)" by (simp add: epsi_def)
  have zero: "coeffs ! 0 = 0 \<and> coeffs ! 1 = 0 \<longrightarrow> cte coeffs = 0 \<and> epsi coeffs = 0"
    using cte epsi by simp
  have cyc: "\<forall>K E te s s' evs xv yv.
           ready_cycle K E te s = Inr (s', evs)
           \<and> Call_polyfit xv yv (POLY_DEGREE K) \<in> set evs
           \<and> polyfit E xv yv (POLY_DEGREE K) = coeffs
           \<longrightarrow> Call_Solve [0, 0, 0, v_lat s, coeffs ! 0, - arctan (coeffs ! 1)] coeffs \<in> set evs"
  proof (intro allI impI)
    fix K E te s s' evs xv yv
    assume a: "ready_cycle K E te s = Inr (s', evs)
           \<and> Call_polyfit xv yv (POLY_DEGREE K) \<in> set evs
           \<and> polyfit E xv yv (POLY_DEGREE K) = coeffs"
    from polyfit_event_unique[of K E te s s' evs xv yv "POLY_DEGREE K"] a
    have "Call_Solve [0, 0, 0, v_lat s, cte coeffs, epsi coeffs] coeffs \<in> set evs" by simp
    thus "Call_Solve [0, 0, 0, v_lat s, coeffs ! 0, - arctan (coeffs ! 1)] coeffs \<in> set evs"
      by (simp only: cte epsi)
  qed
  from cte epsi zero cyc show ?thesis by blast
qed

text \<open>The coefficients 1/2, 1, 0, 0 and 0, 0, 3, 4.\<close>

theorem error_extraction_witness:
  "2 \<le> length [1 / 2, 1, 0, 0 :: double]
   \<and> cte [1 / 2, 1, 0, 0] = 1 / 2 \<and> epsi [1 / 2, 1, 0, 0] = - (pi / 4)
   \<and> cte [0, 0, 3, 4] = 0 \<and> epsi [0, 0, 3, 4] = 0"
proof -
  have a: "2 \<le> length [1 / 2, 1, 0, 0 :: double]" and b: "2 \<le> length [0, 0, 3, 4 :: double]"
    by simp_all
  from error_extraction[OF a] error_extraction[OF b] show ?thesis
    by (simp add: arctan_one)
qed


subsection \<open>Last commanded values\<close>

text \<open>
  C6. The spec states that the steering and the acceleration the solver returns are both
  recorded as the last commanded values. In the concrete cycle the solver returns 1/5 and 1/2;
  afterwards \<open>m_steer\<close> is \<open>CENTER_IN_DZIK - 1/5 = 3/10\<close> and \<open>m_throttle\<close> is still
  0: the acceleration is logged and dropped.
\<close>

theorem solver_outputs_not_both_recorded:
  "loop_iteration K_example E_example 0 0 s_example
     = Inr (s_example\<lparr>m_steer := 3 / 10\<rparr>,
            [Call_polyfit [- 11 / 10, - 1 / 10, 9 / 10, 19 / 10, 29 / 10, 39 / 10]
               [0, 0, 0, 0, 0, 0] 3,
             Warn (Coeffs (1 / 2) 1 0 0),
             Warn (Cte_epsi_psi (1 / 2) (- (pi / 4)) (4 / 25)),
             Call_Solve [0, 0, 0, 1, 1 / 2, - (pi / 4)] [1 / 2, 1, 0, 0],
             Warn (Steer_throttle (1 / 5) (1 / 2)),
             Publish_angle (3 / 10),
             Warn (Dt 0 0)])
   \<and> Solve E_example [0, 0, 0, 1, 1 / 2, - (pi / 4)] [1 / 2, 1, 0, 0] = [1 / 5, 1 / 2]
   \<and> m_throttle (s_example\<lparr>m_steer := 3 / 10\<rparr>) = 0
   \<and> m_throttle (s_example\<lparr>m_steer := 3 / 10\<rparr>) \<noteq> 1 / 2
   \<and> m_steer (s_example\<lparr>m_steer := 3 / 10\<rparr>) \<noteq> 1 / 5"
  by (simp add: example_iteration) (simp add: E_example_def s_example_def)

text \<open>
  C6, amended. A cycle with all inputs records \<open>CENTER_IN_DZIK\<close> minus the solver's
  first output as \<open>m_steer\<close> and leaves \<open>m_throttle\<close> as it was; the second output is
  only logged. Whatever messages arrive before the next cycle, its latency compensation
  uses that \<open>m_steer\<close> as the steering and the unchanged \<open>m_throttle\<close> as the throttle.
  From the constructed node on, \<open>m_throttle\<close> is 0 throughout a run.
\<close>

theorem last_commanded_values:
  assumes "m_pts_OK s \<and> m_speed_OK s \<and> m_pos_OK s \<and> m_psi_OK s"
    and "loop_iteration K E t0 t1 s = Inr (s1, evs)"
  shows "\<exists>state coeffs.
           Call_Solve state coeffs \<in> set evs
           \<and> 2 \<le> length (Solve E state coeffs)
           \<and> Warn (Steer_throttle (Solve E state coeffs ! 0) (Solve E state coeffs ! 1)) \<in> set evs
           \<and> m_steer s1 = CENTER_IN_DZIK K - Solve E state coeffs ! 0
           \<and> m_throttle s1 = m_throttle s
           \<and> (\<forall>msgs.
                 m_steer (spinOnce msgs s1) = CENTER_IN_DZIK K - Solve E state coeffs ! 0
                 \<and> m_throttle (spinOnce msgs s1) = m_throttle s
                 \<and> v_lat (spinOnce msgs s1)
                     = m_speed (spinOnce msgs s1) + m_latency (spinOnce msgs s1) * m_throttle s
                 \<and> psi_lat K (spinOnce msgs s1)
                     = m_psi (spinOnce msgs s1)
                       - m_latency (spinOnce msgs s1)
                         * (v_lat (spinOnce msgs s1)
                            * (CENTER_IN_DZIK K - Solve E state coeffs ! 0) / Lf K))
           \<and> (\<forall>raw params now its sN evsN.
                 loop K E its (MPCControllerNode raw params now) = Inr (sN, evsN)
                 \<longrightarrow> m_throttle sN = 0)"
proof -
  have zero: "\<forall>raw params now its sN evsN.
                 loop K E its (MPCControllerNode raw params now) = Inr (sN, evsN)
                 \<longrightarrow> m_throttle sN = 0"
  proof (intro allI impI)
    fix raw params now its sN evsN
    assume "loop K E its (MPCControllerNode raw params now) = Inr (sN, evsN)"
    from loop_throttle[OF this] show "m_throttle sN = 0"
      by (simp add: MPCControllerNode_def)
  qed
  from assms obtain s' where r: "ready_cycle K E t1 (s\<lparr>m_time := t0\<rparr>) = Inr (s', evs)"
    and s1: "s1 = s'\<lparr>m_old_time := m_time s'\<rparr>"
    by (rule loop_iteration_ready)
  from r obtain state coeffs where c: "Call_Solve state coeffs \<in> set evs"
    "2 \<le> length (Solve E state coeffs)"
    "Warn (Steer_throttle (Solve E state coeffs ! 0) (Solve E state coeffs ! 1)) \<in> set evs"
    "s' = s\<lparr>m_time := t0, m_steer := CENTER_IN_DZIK K - Solve E state coeffs ! 0\<rparr>"
    by (rule ready_cycle_state) simp
  have st: "m_steer s1 = CENTER_IN_DZIK K - Solve E state coeffs ! 0"
    and th: "m_throttle s1 = m_throttle s"
    using s1 c(4) by simp_all
  have "\<forall>msgs.
          m_steer (spinOnce msgs s1) = CENTER_IN_DZIK K - Solve E state coeffs ! 0
          \<and> m_throttle (spinOnce msgs s1) = m_throttle s
          \<and> v_lat (spinOnce msgs s1)
              = m_speed (spinOnce msgs s1) + m_latency (spinOnce msgs s1) * m_throttle s
          \<and> psi_lat K (spinOnce msgs s1)
              = m_psi (spinOnce msgs s1)
                - m_latency (spinOnce msgs s1)
                  * (v_lat (spinOnce msgs s1)
                     * (CENTER_IN_DZIK K - Solve E state coeffs ! 0) / Lf K)"
    using spinOnce_frame[of _ s1] st th by (simp add: v_lat_def psi_lat_def)
  with c(1,2,3) st th zero show ?thesis by blast
qed

theorem last_commanded_values_witness:
  "(m_pts_OK s_example \<and> m_speed_OK s_example \<and> m_pos_OK s_example \<and> m_psi_OK s_example)
   \<and> (\<exists>evs. loop_iteration K_example E_example 0 0 s_example
               = Inr (s_example\<lparr>m_steer := 3 / 10\<rparr>, evs)
             \<and> (\<exists>state coeffs. Call_Solve state coeffs \<in> set evs
                   \<and> m_steer (s_example\<lparr>m_steer := 3 / 10\<rparr>)
                       = CENTER_IN_DZIK K_example - Solve E_example state coeffs ! 0))
   \<and> m_throttle (s_example\<lparr>m_steer := 3 / 10\<rparr>) = m_throttle s_example"
proof -
  have ok: "m_pts_OK s_example \<and> m_speed_OK s_example \<and> m_pos_OK s_example \<and> m_psi_OK s_example"
    by (simp add: s_example_def)
  from last_commanded_values[OF ok example_iteration] ok example_iteration
  show ?thesis by blast
qed



subsection \<open>Waiting for inputs\<close>

text \<open>
  C7. An iteration in which one of the four flags is unset changes the two time stamps
  and produces the one diagnostic that lists the four flags: it calls neither the fit
  nor the solver and publishes nothing. From the constructed node, as long as no
  message has arrived, every iteration is of that kind.
\<close>

theorem no_command_while_awaiting_inputs:
  assumes "\<not> (m_pts_OK s \<and> m_speed_OK s \<and> m_pos_OK s \<and> m_psi_OK s)"
  shows "loop_iteration K E t0 t1 s
       = Inr (s\<lparr>m_time := t0, m_old_time := t0\<rparr>,
              [Warn (No_optimization (m_pts_OK s) (m_speed_OK s) (m_pos_OK s) (m_psi_OK s))])
     \<and> (\<forall>raw params now its.
           (\<forall>it \<in> set its. pending it = []) \<longrightarrow>
           (\<exists>s'. loop K E its (MPCControllerNode raw params now)
                  = Inr (s', replicate (length its)
                               (Warn (No_optimization False False False False)))))"
proof -
  have "\<forall>raw params now its.
           (\<forall>it \<in> set its. pending it = []) \<longrightarrow>
           (\<exists>s'. loop K E its (MPCControllerNode raw params now)
                  = Inr (s', replicate (length its)
                               (Warn (No_optimization False False False False))))"
  proof (intro allI impI)
    fix raw params now and its :: "iteration list"
    assume p: "\<forall>it \<in> set its. pending it = []"
    have f: "m_pts_OK (MPCControllerNode raw params now) = False"
      "m_speed_OK (MPCControllerNode raw params now) = False"
      "m_pos_OK (MPCControllerNode raw params now) = False"
      "m_psi_OK (MPCControllerNode raw params now) = False"
      by (simp_all add: MPCControllerNode_def)
    from loop_no_input[OF p, of "MPCControllerNode raw params now" K E]
    show "\<exists>s'. loop K E its (MPCControllerNode raw params now)
                  = Inr (s', replicate (length its)
                               (Warn (No_optimization False False False False)))"
      by (simp add: f)
  qed
  with loop_iteration_not_ready[OF assms] show ?thesis by blast
qed

text \<open>The concrete node with the speed missing.\<close>

theorem no_command_while_awaiting_inputs_witness:
  "\<not> (m_pts_OK (s_example\<lparr>m_speed_OK := False\<rparr>) \<and> m_speed_OK (s_example\<lparr>m_speed_OK := False\<rparr>)
       \<and> m_pos_OK (s_example\<lparr>m_speed_OK := False\<rparr>) \<and> m_psi_OK (s_example\<lparr>m_speed_OK := False\<rparr>))
   \<and> loop_iteration K_example E_example 1 2 (s_example\<lparr>m_speed_OK := False\<rparr>)
       = Inr (s_example\<lparr>m_speed_OK := False, m_time := 1, m_old_time := 1\<rparr>,
              [Warn (No_optimization True False True True)])"
proof -
  have n: "\<not> (m_pts_OK (s_example\<lparr>m_speed_OK := False\<rparr>) \<and> m_speed_OK (s_example\<lparr>m_speed_OK := False\<rparr>)
       \<and> m_pos_OK (s_example\<lparr>m_speed_OK := False\<rparr>) \<and> m_psi_OK (s_example\<lparr>m_speed_OK := False\<rparr>))"
    by simp
  from no_command_while_awaiting_inputs[OF n, of K_example E_example 1 2] n
  show ?thesis by (simp add: s_example_def)
qed


subsection \<open>Readiness flags\<close>

text \<open>
  C8. The constructor leaves the four flags unset; each callback sets the flags of what
  it stores; no callback, no handling of waiting messages and no loop iteration unsets
  a flag, so over any run of the loop a set flag stays set, and so do all four together.
\<close>

theorem readiness_flags_monotonic:
  "(\<not> m_pts_OK (MPCControllerNode raw params now) \<and> \<not> m_speed_OK (MPCControllerNode raw params now)
    \<and> \<not> m_pos_OK (MPCControllerNode raw params now) \<and> \<not> m_psi_OK (MPCControllerNode raw params now))
   \<and> m_pts_OK (centerline_cb pts s) \<and> m_speed_OK (odom_cb linear_x s)
   \<and> m_pos_OK (pf_pose_odom_cb p s) \<and> m_psi_OK (pf_pose_odom_cb p s)
   \<and> (\<forall>m. (m_pts_OK s \<longrightarrow> m_pts_OK (callback m s)) \<and> (m_speed_OK s \<longrightarrow> m_speed_OK (callback m s))
          \<and> (m_pos_OK s \<longrightarrow> m_pos_OK (callback m s)) \<and> (m_psi_OK s \<longrightarrow> m_psi_OK (callback m s)))
   \<and> (\<forall>ms. (m_pts_OK s \<longrightarrow> m_pts_OK (spinOnce ms s)) \<and> (m_speed_OK s \<longrightarrow> m_speed_OK (spinOnce ms s))
          \<and> (m_pos_OK s \<longrightarrow> m_pos_OK (spinOnce ms s)) \<and> (m_psi_OK s \<longrightarrow> m_psi_OK (spinOnce ms s)))
   \<and> (\<forall>K E t0 t1 s1 evs. loop_iteration K E t0 t1 s = Inr (s1, evs) \<longrightarrow>
          m_pts_OK s1 = m_pts_OK s \<and> m_speed_OK s1 = m_speed_OK s
          \<and> m_pos_OK s1 = m_pos_OK s \<and> m_psi_OK s1 = m_psi_OK s)
   \<and> (\<forall>K E its s' evs. loop K E its s = Inr (s', evs) \<longrightarrow>
          (m_pts_OK s \<longrightarrow> m_pts_OK s') \<and> (m_speed_OK s \<longrightarrow> m_speed_OK s')
          \<and> (m_pos_OK s \<longrightarrow> m_pos_OK s') \<and> (m_psi_OK s \<longrightarrow> m_psi_OK s')
          \<and> (m_pts_OK s \<and> m_speed_OK s \<and> m_pos_OK s \<and> m_psi_OK s
               \<longrightarrow> m_pts_OK s' \<and> m_speed_OK s' \<and> m_pos_OK s' \<and> m_psi_OK s'))"
proof -
  have init: "\<not> m_pts_OK (MPCControllerNode raw params now) \<and> \<not> m_speed_OK (MPCControllerNode raw params now)
    \<and> \<not> m_pos_OK (MPCControllerNode raw params now) \<and> \<not> m_psi_OK (MPCControllerNode raw params now)"
    by (simp add: MPCControllerNode_def)
  have set: "m_pts_OK (centerline_cb pts s) \<and> m_speed_OK (odom_cb linear_x s)
   \<and> m_pos_OK (pf_pose_odom_cb p s) \<and> m_psi_OK (pf_pose_odom_cb p s)"
    by (simp add: centerline_cb_def odom_cb_def pf_pose_odom_cb_def Let_def)
  have it: "\<forall>K E t0 t1 s1 evs. loop_iteration K E t0 t1 s = Inr (s1, evs) \<longrightarrow>
          m_pts_OK s1 = m_pts_OK s \<and> m_speed_OK s1 = m_speed_OK s
          \<and> m_pos_OK s1 = m_pos_OK s \<and> m_psi_OK s1 = m_psi_OK s"
    using loop_iteration_frame by blast
  have run: "\<forall>K E its s' evs. loop K E its s = Inr (s', evs) \<longrightarrow>
          (m_pts_OK s \<longrightarrow> m_pts_OK s') \<and> (m_speed_OK s \<longrightarrow> m_speed_OK s')
          \<and> (m_pos_OK s \<longrightarrow> m_pos_OK s') \<and> (m_psi_OK s \<longrightarrow> m_psi_OK s')
          \<and> (m_pts_OK s \<and> m_speed_OK s \<and> m_pos_OK s \<and> m_psi_OK s
               \<longrightarrow> m_pts_OK s' \<and> m_speed_OK s' \<and> m_pos_OK s' \<and> m_psi_OK s')"
    using loop_flags by blast
  from init set callback_flags[of s] spinOnce_flags[of s] it run show ?thesis
    by (intro conjI allI) blast+
qed

text \<open>One iteration from the concrete node, with a speed message waiting at its end.\<close>

lemma example_run:
  "loop K_example E_example [\<lparr>t_start = 0, t_end = 0, pending = [Odom 2]\<rparr>] s_example
     = Inr (s_example\<lparr>m_steer := 3 / 10, m_speed := 2\<rparr>,
            [Call_polyfit [- 11 / 10, - 1 / 10, 9 / 10, 19 / 10, 29 / 10, 39 / 10]
               [0, 0, 0, 0, 0, 0] 3,
             Warn (Coeffs (1 / 2) 1 0 0),
             Warn (Cte_epsi_psi (1 / 2) (- (pi / 4)) (4 / 25)),
             Call_Solve [0, 0, 0, 1, 1 / 2, - (pi / 4)] [1 / 2, 1, 0, 0],
             Warn (Steer_throttle (1 / 5) (1 / 2)),
             Publish_angle (3 / 10),
             Warn (Dt 0 0)])"
  by (simp add: example_iteration odom_cb_def) (simp add: s_example_def)

theorem readiness_flags_monotonic_witness:
  "m_pts_OK s_example \<and> m_speed_OK s_example \<and> m_pos_OK s_example \<and> m_psi_OK s_example
   \<and> (\<exists>evs. loop K_example E_example [\<lparr>t_start = 0, t_end = 0, pending = [Odom 2]\<rparr>] s_example
              = Inr (s_example\<lparr>m_steer := 3 / 10, m_speed := 2\<rparr>, evs))
   \<and> m_pts_OK (s_example\<lparr>m_steer := 3 / 10, m_speed := 2\<rparr>)
   \<and> m_speed_OK (s_example\<lparr>m_steer := 3 / 10, m_speed := 2\<rparr>)
   \<and> m_pos_OK (s_example\<lparr>m_steer := 3 / 10, m_speed := 2\<rparr>)
   \<and> m_psi_OK (s_example\<lparr>m_steer := 3 / 10, m_speed := 2\<rparr>)
   \<and> m_pts_OK (callback (Odom 2) s_example)"
proof -
  have ok: "m_pts_OK s_example \<and> m_speed_OK s_example \<and> m_pos_OK s_example \<and> m_psi_OK s_example"
    by (simp add: s_example_def)
  from readiness_flags_monotonic[of _ _ _ _ s_example] ok example_run
  show ?thesis by (simp add: odom_cb_def)
qed


subsection \<open>Number of points given to the fit\<close>

text \<open>
  C10. The x spacing check keeps at least \<open>min NUM_STEPS_POLY (POLY_DEGREE + 1)\<close>
  points, as many y as x values. A cycle with all inputs calls the fit once, with the
  kept points and the degree \<open>POLY_DEGREE\<close>: with at least \<open>POLY_DEGREE + 1\<close> points
  when the window is longer than the degree.
\<close>

theorem polyfit_sample_count:
  "min (NUM_STEPS_POLY K) (POLY_DEGREE K + 1) \<le> length (fst (stability_guard K cx cy px py sn cs))
   \<and> length (fst (snd (stability_guard K cx cy px py sn cs)))
       = length (fst (stability_guard K cx cy px py sn cs))
   \<and> (\<forall>E te s s' evs.
         ready_cycle K E te s = Inr (s', evs) \<longrightarrow>
           (\<exists>xv yv. Call_polyfit xv yv (POLY_DEGREE K) \<in> set evs)
           \<and> (\<forall>xv yv d. Call_polyfit xv yv d \<in> set evs \<longrightarrow>
                 d = POLY_DEGREE K \<and> length yv = length xv
                 \<and> min (NUM_STEPS_POLY K) (POLY_DEGREE K + 1) \<le> length xv
                 \<and> (POLY_DEGREE K < NUM_STEPS_POLY K \<longrightarrow> POLY_DEGREE K + 1 \<le> length xv)))"
proof -
  have guard: "min (NUM_STEPS_POLY K) (POLY_DEGREE K + 1) \<le> length xv \<and> length yv = length xv"
    if "stability_guard K cx cy px py sn cs = (xv, yv, w)" for cx cy px py sn cs xv yv w
  proof -
    from stability_guard_prefix[OF that] obtain m where m: "m \<le> NUM_STEPS_POLY K"
      "xv = map (x_local cx cy px py sn cs) [0..<m]"
      "yv = map (y_local cx cy px py sn cs) [0..<m]"
      "if m < NUM_STEPS_POLY K
       then POLY_DEGREE K < m
            \<and> x_local cx cy px py sn cs m - x_local cx cy px py sn cs (m - 1) < X_DELTA_MIN_VALUE K
            \<and> w = [X_delta_too_low m]
       else w = []"
      by blast
    have "min (NUM_STEPS_POLY K) (POLY_DEGREE K + 1) \<le> m"
      using m(1,4) by (cases "m < NUM_STEPS_POLY K") simp_all
    with m(2,3) show ?thesis by simp
  qed
  obtain xv yv w where g: "stability_guard K cx cy px py sn cs = (xv, yv, w)"
    by (cases "stability_guard K cx cy px py sn cs") auto
  from guard[OF g] g
  have a: "min (NUM_STEPS_POLY K) (POLY_DEGREE K + 1) \<le> length (fst (stability_guard K cx cy px py sn cs))
   \<and> length (fst (snd (stability_guard K cx cy px py sn cs)))
       = length (fst (stability_guard K cx cy px py sn cs))"
    by simp
  have b: "\<forall>E te s s' evs.
         ready_cycle K E te s = Inr (s', evs) \<longrightarrow>
           (\<exists>xv yv. Call_polyfit xv yv (POLY_DEGREE K) \<in> set evs)
           \<and> (\<forall>xv yv d. Call_polyfit xv yv d \<in> set evs \<longrightarrow>
                 d = POLY_DEGREE K \<and> length yv = length xv
                 \<and> min (NUM_STEPS_POLY K) (POLY_DEGREE K + 1) \<le> length xv
                 \<and> (POLY_DEGREE K < NUM_STEPS_POLY K \<longrightarrow> POLY_DEGREE K + 1 \<le> length xv))"
  proof (intro allI impI conjI)
    fix E te s s' evs
    assume r: "ready_cycle K E te s = Inr (s', evs)"
    then obtain xv yv where "Call_polyfit xv yv (POLY_DEGREE K) \<in> set evs"
      by (rule ready_cycle_Inr) auto
    thus "\<exists>xv yv. Call_polyfit xv yv (POLY_DEGREE K) \<in> set evs" by blast
    fix xv yv d
    assume c: "Call_polyfit xv yv d \<in> set evs"
    from polyfit_event_unique[OF r c] obtain cx' cy' w' where d: "d = POLY_DEGREE K"
      and g': "stability_guard K cx' cy' (pos_x_lat K s) (pos_y_lat K s)
               (sin (psi_lat K s)) (cos (psi_lat K s)) = (xv, yv, w')"
      by blast
    from guard[OF g'] have l: "min (NUM_STEPS_POLY K) (POLY_DEGREE K + 1) \<le> length xv"
      "length yv = length xv" by simp_all
    show "d = POLY_DEGREE K" by (rule d)
    show "length yv = length xv" by (rule l(2))
    show "min (NUM_STEPS_POLY K) (POLY_DEGREE K + 1) \<le> length xv" by (rule l(1))
    assume "POLY_DEGREE K < NUM_STEPS_POLY K"
    with l(1) show "POLY_DEGREE K + 1 \<le> length xv" by simp
  qed
  from a b show ?thesis by blast
qed

text \<open>The concrete cycle: six points for the degree 3.\<close>

theorem polyfit_sample_count_witness:
  "(\<exists>s' evs. ready_cycle K_example E_example 0 s_example = Inr (s', evs)
       \<and> Call_polyfit [- 11 / 10, - 1 / 10, 9 / 10, 19 / 10, 29 / 10, 39 / 10]
            [0, 0, 0, 0, 0, 0] 3 \<in> set evs)
   \<and> POLY_DEGREE K_example < NUM_STEPS_POLY K_example
   \<and> POLY_DEGREE K_example + 1
       \<le> length [- 11 / 10, - 1 / 10, 9 / 10, 19 / 10, 29 / 10, 39 / 10 :: double]"
proof -
  have k: "POLY_DEGREE K_example < NUM_STEPS_POLY K_example" by (simp add: K_example_def)
  have c: "Call_polyfit [- 11 / 10, - 1 / 10, 9 / 10, 19 / 10, 29 / 10, 39 / 10]
            [0, 0, 0, 0, 0, 0] 3 \<in> set [Call_polyfit [- 11 / 10, - 1 / 10, 9 / 10, 19 / 10, 29 / 10, 39 / 10]
               [0, 0, 0, 0, 0, 0] 3,
             Warn (Coeffs (1 / 2) 1 0 0),
             Warn (Cte_epsi_psi (1 / 2) (- (pi / 4)) (4 / 25)),
             Call_Solve [0, 0, 0, 1, 1 / 2, - (pi / 4)] [1 / 2, 1, 0, 0],
             Warn (Steer_throttle (1 / 5) (1 / 2)),
             Publish_angle (3 / 10),
             Warn (Dt 0 0)]"
    by simp
  from polyfit_sample_count[of K_example] example_cycle[of 0] c k
  have "POLY_DEGREE K_example + 1
       \<le> length [- 11 / 10, - 1 / 10, 9 / 10, 19 / 10, 29 / 10, 39 / 10 :: double]"
    by blast
  with example_cycle[of 0] c k show ?thesis by blast
qed


subsection \<open>Start of the process\<close>

text \<open>
  Twelve arguments whose first value is no number.
\<close>

definition argv_example :: "string list" where
  "argv_example =
     [''mpc_node'', ''abc'', ''0.1'', ''0.05'', ''1'', ''1'', ''1'', ''1'', ''1'', ''1'', ''1'',
      ''true'']"

lemma argv_example_shape: "length argv_example = 12" "argv_example ! 11 = ''true''"
  by (simp_all add: argv_example_def)

text \<open>
  C9. The spec states that a malformed configuration value stops the process with a
  non-zero status before the loop. With \<^verbatim>\<open>abc\<close> for the horizon length no check
  follows the conversion: whatever numbers \<^verbatim>\<open>atoi\<close> and \<^verbatim>\<open>atof\<close> give, the loop
  is entered with them and the process ends with status 0 and no diagnostic.
\<close>

theorem malformed_number_enters_loop:
  "\<forall>atoi atof.
     main_startup atoi atof argv_example
       = Enter_loop (numeric_params atoi atof argv_example True) (1 < atof ''0.05'')
     \<and> steps_ahead (numeric_params atoi atof argv_example True) = atoi ''abc''
     \<and> main K_example (\<lambda>params. E_example) atoi atof s_example 0 [] argv_example
         = Inr (0, [], [])"
proof (intro allI)
  fix atoi :: "string \<Rightarrow> int" and atof :: "string \<Rightarrow> double"
  have l: "latency (numeric_params atoi atof argv_example True) = atof ''0.05''"
    and h: "steps_ahead (numeric_params atoi atof argv_example True) = atoi ''abc''"
    by (simp_all add: numeric_params_def argv_example_def)
  have m: "main_startup atoi atof argv_example
       = Enter_loop (numeric_params atoi atof argv_example True) (1 < atof ''0.05'')"
    by (simp add: main_startup_def argv_example_shape l)
  from m h show "main_startup atoi atof argv_example
       = Enter_loop (numeric_params atoi atof argv_example True) (1 < atof ''0.05'')
     \<and> steps_ahead (numeric_params atoi atof argv_example True) = atoi ''abc''
     \<and> main K_example (\<lambda>params. E_example) atoi atof s_example 0 [] argv_example
         = Inr (0, [], [])"
    by (simp add: main_def)
qed

text \<open>
  C9, amended. The loop is entered exactly when there are twelve arguments (the program
  name and eleven values) and the last one is \<^verbatim>\<open>true\<close> or \<^verbatim>\<open>false\<close>, with the
  numbers \<^verbatim>\<open>atoi\<close> and \<^verbatim>\<open>atof\<close> give for the ten values before it, whatever their
  text. In every other case the process ends with status 1 and one diagnostic, and the
  loop does nothing.
\<close>

theorem startup_checks:
  "(length argv = 12 \<and> (argv ! 11 = ''true'' \<or> argv ! 11 = ''false'') \<longrightarrow>
      main_startup atoi atof argv
        = Enter_loop (numeric_params atoi atof argv (argv ! 11 = ''true''))
            (1 < atof (argv ! 3))
      \<and> (\<forall>K controller raw now its.
            main K controller atoi atof raw now its argv
              = (case loop K (controller (numeric_params atoi atof argv (argv ! 11 = ''true''))) its
                        (MPCControllerNode raw
                           (numeric_params atoi atof argv (argv ! 11 = ''true'')) now) of
                   Inl e \<Rightarrow> Inl e
                 | Inr (s, evs) \<Rightarrow> Inr (0, [], evs))))
   \<and> (\<not> (length argv = 12 \<and> (argv ! 11 = ''true'' \<or> argv ! 11 = ''false'')) \<longrightarrow>
        (\<exists>d. main_startup atoi atof argv = Exit 1 d
              \<and> (\<forall>K controller raw now its.
                    main K controller atoi atof raw now its argv = Inr (1, [d], []))))"
proof (intro conjI impI)
  assume a: "length argv = 12 \<and> (argv ! 11 = ''true'' \<or> argv ! 11 = ''false'')"
  have ne: "''false'' \<noteq> ''true''" by simp
  have l: "latency (numeric_params atoi atof argv dbg) = atof (argv ! 3)" for dbg
    by (simp add: numeric_params_def)
  from a ne show s: "main_startup atoi atof argv
        = Enter_loop (numeric_params atoi atof argv (argv ! 11 = ''true''))
            (1 < atof (argv ! 3))"
    by (auto simp: main_startup_def Let_def l)
  show "\<forall>K controller raw now its.
            main K controller atoi atof raw now its argv
              = (case loop K (controller (numeric_params atoi atof argv (argv ! 11 = ''true''))) its
                        (MPCControllerNode raw
                           (numeric_params atoi atof argv (argv ! 11 = ''true'')) now) of
                   Inl e \<Rightarrow> Inl e
                 | Inr (s, evs) \<Rightarrow> Inr (0, [], evs))"
    by (simp add: main_def s)
next
  assume a: "\<not> (length argv = 12 \<and> (argv ! 11 = ''true'' \<or> argv ! 11 = ''false''))"
  hence "\<exists>d. main_startup atoi atof argv = Exit 1 d"
    by (auto simp: main_startup_def Let_def)
  then obtain d where d: "main_startup atoi atof argv = Exit 1 d" by blast
  hence "\<forall>K controller raw now its.
           main K controller atoi atof raw now its argv = Inr (1, [d], [])"
    by (simp add: main_def)
  with d show "\<exists>d. main_startup atoi atof argv = Exit 1 d
              \<and> (\<forall>K controller raw now its.
                    main K controller atoi atof raw now its argv = Inr (1, [d], []))"
    by blast
qed

text \<open>
  The twelve arguments above, two arguments, and a debug argument \<^verbatim>\<open>yes\<close>, for any
  conversions.
\<close>

theorem startup_checks_witness:
  "\<forall>atoi atof.
     length argv_example = 12 \<and> argv_example ! 11 = ''true''
     \<and> main_startup atoi atof argv_example
         = Enter_loop (numeric_params atoi atof argv_example True) (1 < atof (argv_example ! 3))
     \<and> \<not> (length [''mpc_node'', ''10''] = 12)
     \<and> main K_example (\<lambda>params. E_example) atoi atof s_example 0 [] [''mpc_node'', ''10'']
         = Inr (1, [Too_few_arguments], [])
     \<and> main K_example (\<lambda>params. E_example) atoi atof s_example 0 []
           (argv_example[11 := ''yes''])
         = Inr (1, [Bad_debug_argument ''yes''], [])"
proof (intro allI)
  fix atoi :: "string \<Rightarrow> int" and atof :: "string \<Rightarrow> double"
  have l: "length argv_example = 12 \<and> argv_example ! 11 = ''true''"
    by (simp add: argv_example_def)
  have f: "main_startup atoi atof [''mpc_node'', ''10''] = Exit 1 Too_few_arguments"
    by (simp add: main_startup_def)
  have y: "main_startup atoi atof (argv_example[11 := ''yes''])
             = Exit 1 (Bad_debug_argument ''yes'')"
    by (simp add: main_startup_def argv_example_def)
  have n: "\<not> (length [''mpc_node'', ''10''] = 12
             \<and> ([''mpc_node'', ''10''] ! 11 = ''true'' \<or> [''mpc_node'', ''10''] ! 11 = ''false''))"
    by simp
  have n': "\<not> (length (argv_example[11 := ''yes'']) = 12
             \<and> ((argv_example[11 := ''yes'']) ! 11 = ''true''
                 \<or> (argv_example[11 := ''yes'']) ! 11 = ''false''))"
    by (simp add: argv_example_def)
  from startup_checks[of argv_example atoi atof] l
  have 1: "main_startup atoi atof argv_example
         = Enter_loop (numeric_params atoi atof argv_example True) (1 < atof (argv_example ! 3))"
    by simp
  from startup_checks[of "[''mpc_node'', ''10'']" atoi atof] n f
  have 2: "main K_example (\<lambda>params. E_example) atoi atof s_example 0 [] [''mpc_node'', ''10'']
         = Inr (1, [Too_few_arguments], [])"
    by simp
  from startup_checks[of "argv_example[11 := ''yes'']" atoi atof] n' y
  have 3: "main K_example (\<lambda>params. E_example) atoi atof s_example 0 []
           (argv_example[11 := ''yes''])
         = Inr (1, [Bad_debug_argument ''yes''], [])"
    by simp
  from l 1 2 3 show "length argv_example = 12 \<and> argv_example ! 11 = ''true''
     \<and> main_startup atoi atof argv_example
         = Enter_loop (numeric_params atoi atof argv_example True) (1 < atof (argv_example ! 3))
     \<and> \<not> (length [''mpc_node'', ''10''] = 12)
     \<and> main K_example (\<lambda>params. E_example) atoi atof s_example 0 [] [''mpc_node'', ''10'']
         = Inr (1, [Too_few_arguments], [])
     \<and> main K_example (\<lambda>params. E_example) atoi atof s_example 0 []
           (argv_example[11 := ''yes''])
         = Inr (1, [Bad_debug_argument ''yes''], [])"
    by simp
qed

end
